theory Spec2Isabelle
  imports Main "HOL-Library.Sublist" "HOL-Library.AList"
begin

section \<open>Strings of the Go standard library\<close>

text \<open>
  A Go string is a sequence of bytes, here a \<^typ>\<open>string\<close>. The helpers below follow
  package \<^verbatim>\<open>strings\<close> on ASCII text: case mapping and white space look at the
  ASCII range only.
\<close>

definition HasSuffix :: "string \<Rightarrow> string \<Rightarrow> bool" where
  "HasSuffix s suf = suffix suf s"

definition is_upper :: "char \<Rightarrow> bool" where
  "is_upper c = (65 \<le> (of_char c :: nat) \<and> (of_char c :: nat) \<le> 90)"

definition lower_char :: "char \<Rightarrow> char" where
  "lower_char c = (if is_upper c then char_of ((of_char c :: nat) + 32) else c)"

definition ToLower :: "string \<Rightarrow> string" where
  "ToLower s = map lower_char s"

definition EqualFold :: "string \<Rightarrow> string \<Rightarrow> bool" where
  "EqualFold s t = (ToLower s = ToLower t)"

definition is_digit :: "char \<Rightarrow> bool" where
  "is_digit c = (48 \<le> (of_char c :: nat) \<and> (of_char c :: nat) \<le> 57)"

definition is_space :: "char \<Rightarrow> bool" where
  "is_space c = ((of_char c :: nat) \<in> {9, 10, 11, 12, 13, 32})"

definition TrimSpace :: "string \<Rightarrow> string" where
  "TrimSpace s = rev (dropWhile is_space (rev (dropWhile is_space s)))"

text \<open>\<^verbatim>\<open>strings.Split(s, sep)\<close> for a separator of one byte.\<close>

fun Split :: "string \<Rightarrow> char \<Rightarrow> string list" where
  "Split [] sep = [[]]"
| "Split (c # cs) sep =
     (if c = sep then [] # Split cs sep
      else (case Split cs sep of p # ps \<Rightarrow> (c # p) # ps | [] \<Rightarrow> [[c]]))"

text \<open>\<^verbatim>\<open>strings.SplitN(s, sep, 2)\<close> for a separator of one byte: cut at the first one.\<close>

definition SplitN2 :: "string \<Rightarrow> char \<Rightarrow> string list" where
  "SplitN2 s sep =
     (if sep \<in> set s then [takeWhile (\<lambda>c. c \<noteq> sep) s, tl (dropWhile (\<lambda>c. c \<noteq> sep) s)]
      else [s])"

text \<open>
  \<^verbatim>\<open>strings.ReplaceAll(s, old, new)\<close>: the occurrences of \<open>old\<close> are replaced from left
  to right without overlap. (For an empty \<open>old\<close> Go inserts \<open>new\<close> around every
  character; the program never passes one.)
\<close>

function ReplaceAll :: "string \<Rightarrow> string \<Rightarrow> string \<Rightarrow> string" where
  "ReplaceAll [] old new = (if old = [] then new else [])"
| "ReplaceAll (c # cs) old new =
     (if old = [] then new @ c # ReplaceAll cs old new
      else if prefix old (c # cs) then new @ ReplaceAll (drop (length old - 1) cs) old new
      else c # ReplaceAll cs old new)"
  by pat_completeness auto
termination
  by (relation "measure (\<lambda>(s, old, new). length s)") auto

text \<open>\<^verbatim>\<open>strconv.ParseUint(s, 10, 64)\<close>: \<open>None\<close> stands for the error.\<close>

definition digits_value :: "string \<Rightarrow> nat" where
  "digits_value s = foldl (\<lambda>n c. 10 * n + ((of_char c :: nat) - 48)) 0 s"

definition ParseUint :: "string \<Rightarrow> nat option" where
  "ParseUint s =
     (if s = [] \<or> \<not> list_all is_digit s then None
      else if digits_value s < 2 ^ 64 then Some (digits_value s) else None)"

text \<open>The order \<^verbatim>\<open>s > o\<close> of Go strings: bytewise lexicographic.\<close>

fun str_greater :: "string \<Rightarrow> string \<Rightarrow> bool" where
  "str_greater [] t = False"
| "str_greater (c # cs) [] = True"
| "str_greater (c # cs) (d # ds) =
     (if (of_char c :: nat) = of_char d then str_greater cs ds
      else (of_char d :: nat) < of_char c)"

section \<open>The semantic-version library\<close>

text \<open>
  The program uses \<^verbatim>\<open>github.com/Masterminds/semver/v3\<close>, which is not part of the
  repository. A parsed version is the record of its fields. The parsers of the library
  (\<^verbatim>\<open>NewVersion\<close>, \<^verbatim>\<open>NewConstraint\<close>) are parameters of the model, collected in
  \<open>semver_lib\<close>; a parsed constraint is the predicate that \<^verbatim>\<open>Check\<close> evaluates.
  The order of versions, \<open>Compare\<close>, follows the library: major, minor, patch, then the
  pre-release identifiers; build metadata is ignored.
\<close>

record semver =
  major :: nat
  minor :: nat
  patch :: nat
  pre :: string
  metadata :: string

record semver_lib =
  NewVersion :: "string \<Rightarrow> semver option"
  NewConstraint :: "string \<Rightarrow> (semver \<Rightarrow> bool) option"

definition compareSegment :: "nat \<Rightarrow> nat \<Rightarrow> int" where
  "compareSegment v o' = (if v < o' then -1 else if v > o' then 1 else 0)"

definition comparePrePart :: "string \<Rightarrow> string \<Rightarrow> int" where
  "comparePrePart s o' =
     (if s = o' then 0
      else if s = [] then -1
      else if o' = [] then 1
      else (case (ParseUint o', ParseUint s) of
              (None, None) \<Rightarrow> (if str_greater s o' then 1 else -1)
            | (None, Some si) \<Rightarrow> -1
            | (Some oi, None) \<Rightarrow> 1
            | (Some oi, Some si) \<Rightarrow> (if si > oi then 1 else -1)))"

fun comparePreParts :: "string list \<Rightarrow> string list \<Rightarrow> int" where
  "comparePreParts [] [] = 0"
| "comparePreParts (s # ss) [] =
     (if comparePrePart s [] \<noteq> 0 then comparePrePart s [] else comparePreParts ss [])"
| "comparePreParts [] (t # ts) =
     (if comparePrePart [] t \<noteq> 0 then comparePrePart [] t else comparePreParts [] ts)"
| "comparePreParts (s # ss) (t # ts) =
     (if comparePrePart s t \<noteq> 0 then comparePrePart s t else comparePreParts ss ts)"

definition comparePrerelease :: "string \<Rightarrow> string \<Rightarrow> int" where
  "comparePrerelease v o' = comparePreParts (Split v (CHR ''.'')) (Split o' (CHR ''.''))"

definition Compare :: "semver \<Rightarrow> semver \<Rightarrow> int" where
  "Compare v o' =
     (if compareSegment (major v) (major o') \<noteq> 0 then compareSegment (major v) (major o')
      else if compareSegment (minor v) (minor o') \<noteq> 0 then compareSegment (minor v) (minor o')
      else if compareSegment (patch v) (patch o') \<noteq> 0 then compareSegment (patch v) (patch o')
      else if pre v = [] \<and> pre o' = [] then 0
      else if pre v = [] then 1
      else if pre o' = [] then -1
      else comparePrerelease (pre v) (pre o'))"

definition Equal :: "semver \<Rightarrow> semver \<Rightarrow> bool" where
  "Equal v o' = (Compare v o' = 0)"

text \<open>
  A parser for the plain form \<^verbatim>\<open>MAJOR.MINOR.PATCH\<close>, on which the library's
  \<^verbatim>\<open>NewVersion\<close> is the obvious one; it instantiates \<open>NewVersion\<close> where a theorem is
  evaluated on concrete strings. A constraint of the form \<^verbatim>\<open>>=MAJOR.MINOR.PATCH\<close> does
  the same for \<open>NewConstraint\<close>.
\<close>

definition plain_version :: "string \<Rightarrow> semver option" where
  "plain_version s =
     (case map ParseUint (Split s (CHR ''.'')) of
        [Some a, Some b, Some c] \<Rightarrow>
          Some \<lparr>major = a, minor = b, patch = c, pre = [], metadata = []\<rparr>
      | _ \<Rightarrow> None)"

definition at_least_constraint :: "string \<Rightarrow> (semver \<Rightarrow> bool) option" where
  "at_least_constraint s =
     (if prefix ''>='' s then
        (case plain_version (drop 2 s) of
           Some r \<Rightarrow> Some (\<lambda>v. Compare v r \<ge> 0)
         | None \<Rightarrow> None)
      else None)"

definition plain_lib :: semver_lib where
  "plain_lib = \<lparr>NewVersion = plain_version, NewConstraint = at_least_constraint\<rparr>"

section \<open>Errors\<close>

text \<open>
  The program builds its errors with \<^verbatim>\<open>fmt.Errorf\<close>; each constructor stands for one
  format string of the source and carries the values formatted into it. A Go result
  \<^verbatim>\<open>(v, err)\<close> is a pair whose second component is \<open>None\<close> for \<^verbatim>\<open>nil\<close>.
\<close>

datatype error =
    InvalidCurrentVersion string
  | InvalidRequiredVersion string
  | InvalidVersion string
  | InvalidConstraint string
  | ConfigFileNotFound
  | CreateDirFailed
  | CreateFileFailed
  | DownloadFileFailed
  | BadStatus string
  | InvalidChecksumFormat
  | UnsupportedAlgorithm string
  | WriteFileFailed
  | ChecksumMismatch string string
  | NoPlatformConfig string
  | TempDirFailed
  | DownloadDependencyFailed error
  | InstallationFailed string
  | NoVerifyCommand string
  | VerifyTimeout
  | VerifyFailed string
  | DependencyNotFound string
  | NoDependenciesDefined
  | DepNoPlatform string string
  | DepNoRequiredVersion string
  | DepInvalidConstraint string string
  | DependencyConfigErrors "error list"
  | DependencyValidationErrors "error list"
  | NoConfigLoaded
  | InvalidConfiguration error
  | SetenvFailed string
  | UpdatePathFailed

section \<open>config.go: version classification\<close>

datatype UpdateType = NoUpdate | PatchUpdate | MinorUpdate | MajorUpdate

definition CheckVersionUpdate ::
  "semver_lib \<Rightarrow> string \<Rightarrow> string \<Rightarrow> UpdateType \<times> error option" where
  "CheckVersionUpdate lib currentVersion requiredVersion =
     (case NewVersion lib currentVersion of
        None \<Rightarrow> (NoUpdate, Some (InvalidCurrentVersion currentVersion))
      | Some current \<Rightarrow>
         (case NewVersion lib requiredVersion of
            None \<Rightarrow> (NoUpdate, Some (InvalidRequiredVersion requiredVersion))
          | Some required \<Rightarrow>
              if Equal current required then (NoUpdate, None)
              else if major current < major required then (MajorUpdate, None)
              else if minor current < minor required then (MinorUpdate, None)
              else if patch current < patch required then (PatchUpdate, None)
              else (NoUpdate, None)))"

definition IsVersionCompatible ::
  "semver_lib \<Rightarrow> string \<Rightarrow> string \<Rightarrow> bool \<times> error option" where
  "IsVersionCompatible lib currentVersion constraintStr =
     (case NewVersion lib currentVersion of
        None \<Rightarrow> (False, Some (InvalidVersion currentVersion))
      | Some version \<Rightarrow>
         (case NewConstraint lib constraintStr of
            None \<Rightarrow> (False, Some (InvalidConstraint constraintStr))
          | Some constraint \<Rightarrow> (constraint version, None)))"

section \<open>The host: file system, process environment, log, outside world\<close>

text \<open>
  Everything the program mutates is a field of \<open>state\<close>: the files it can see
  (\<open>files\<close>, from a path to a directory or to a regular file with its content), the
  environment of the process (\<open>environ\<close>, the first binding of a name counts), the lines
  handed to the logger (\<open>logs\<close>: level and format string, as the test double of the
  repository records them), and the environment accumulator that the dependency manager
  points to (\<open>envManager\<close>). \<open>trace\<close> lists, oldest first, every interaction with the
  outside (the deferred \<^verbatim>\<open>os.RemoveAll\<close> of the temporary directory apart); the event of a subprocess says whether it was started to verify or to install,
  and for which dependency.

  What the outside answers is not decided by the program: \<open>platform\<close> collects these
  answers as functions of the trace so far, together with the library functions that the
  model does not spell out (\<^verbatim>\<open>path/filepath\<close>, SHA-256). Theorems hold for every
  platform unless they say otherwise. Every system call whose failure the program can
  meet has its answer in the platform: \<open>io_Copy\<close> is \<open>None\<close> when the copy of the
  response body completes and \<open>Some n\<close> when it fails after \<open>n\<close> bytes; \<open>Remove_ok\<close> says
  whether \<^verbatim>\<open>os.Remove\<close> removes the file, given whether the process holds the file
  open at that moment (the source drops the error of \<^verbatim>\<open>os.Remove\<close>, so a removal that
  fails leaves the file where it is); \<open>RemoveAll\<close> is what \<^verbatim>\<open>os.RemoveAll\<close>,
  whose error is dropped as well, makes of the files.
\<close>

datatype node = Dir | File string

datatype level = LevelDebug | LevelInfo | LevelWarn | LevelError

datatype event =
    MkdirAllEv string
  | CreateEv string
  | HttpGetEv string
  | MkdirTempEv
  | VerifyEv string "string list"
  | InstallEv string "string list"
  | SetenvEv string string
  | RangeEv "string list"
  | RemoveEv string

record response =
  StatusCode :: int
  Status :: string
  Body :: string

record proc_result =
  CombinedOutput :: string
  failed :: bool
  deadline_exceeded :: bool

record env_Manager =
  Variables :: "(string \<times> string) list"
  Paths :: "string list"

record state =
  files :: "string \<rightharpoonup> node"
  environ :: "(string \<times> string) list"
  logs :: "(level \<times> string) list"
  envManager :: env_Manager
  trace :: "event list"

record platform =
  GOOS :: string
  PathListSeparator :: string
  Join :: "string list \<Rightarrow> string"
  Base :: "string \<Rightarrow> string"
  Clean :: "string \<Rightarrow> string"
  sha256_hex :: "string \<Rightarrow> string"
  RemoveAll :: "string \<Rightarrow> (string \<rightharpoonup> node) \<Rightarrow> (string \<rightharpoonup> node)"
  MkdirAll_ok :: "event list \<Rightarrow> string \<Rightarrow> bool"
  Create_ok :: "event list \<Rightarrow> string \<Rightarrow> bool"
  http_Get :: "event list \<Rightarrow> string \<Rightarrow> response option"
  io_Copy :: "event list \<Rightarrow> string \<Rightarrow> nat option"
  Remove_ok :: "event list \<Rightarrow> string \<Rightarrow> bool \<Rightarrow> bool"
  MkdirTemp :: "event list \<Rightarrow> string option"
  exec_Command :: "event list \<Rightarrow> string list \<Rightarrow> proc_result"
  Setenv_ok :: "event list \<Rightarrow> string \<Rightarrow> string \<Rightarrow> bool"
  range_order :: "event list \<Rightarrow> string list \<Rightarrow> string list"

definition emit :: "event \<Rightarrow> state \<Rightarrow> state" where
  "emit e s = s\<lparr>trace := trace s @ [e]\<rparr>"

definition logf :: "level \<Rightarrow> string \<Rightarrow> state \<Rightarrow> state" where
  "logf l fmt s = s\<lparr>logs := logs s @ [(l, fmt)]\<rparr>"

definition Stat_ok :: "state \<Rightarrow> string \<Rightarrow> bool" where
  "Stat_ok s p = (files s p \<noteq> None)"

definition Getenv :: "state \<Rightarrow> string \<Rightarrow> string" where
  "Getenv s k = (case map_of (environ s) k of Some v \<Rightarrow> v | None \<Rightarrow> [])"

section \<open>config.go: locating the manifest\<close>

definition searchPaths :: "platform \<Rightarrow> state \<Rightarrow> string list" where
  "searchPaths pf s =
     [''app-dependencies.yml'',
      ''config/app-dependencies.yml'',
      ''../app-dependencies.yml'',
      ''../config/app-dependencies.yml'',
      Join pf [Getenv s ''HOME'', ''.config/depman/app-dependencies.yml'']]
     @ (if GOOS pf = ''windows'' \<and> Getenv s ''APPDATA'' \<noteq> []
        then [Join pf [Getenv s ''APPDATA'', ''depman'', ''app-dependencies.yml'']]
        else [])"

definition FindDependencyFile :: "platform \<Rightarrow> state \<Rightarrow> string \<Rightarrow> string \<times> error option" where
  "FindDependencyFile pf s customPath =
     (if customPath \<noteq> [] \<and> Stat_ok s customPath then (customPath, None)
      else if customPath \<noteq> [] \<and> \<not> HasSuffix customPath ''.yml''
              \<and> \<not> HasSuffix customPath ''.yaml'' \<and> Stat_ok s (customPath @ ''.yml'')
      then (customPath @ ''.yml'', None)
      else (case find (Stat_ok s) (searchPaths pf s) of
              Some path \<Rightarrow> (path, None)
            | None \<Rightarrow> ([], Some ConfigFileNotFound)))"

section \<open>downloader.go\<close>

record DownloadOptions =
  URL :: string
  Checksum :: string
  DestDir :: string
  Filename :: string
  ShowProgress :: bool

record Result =
  FilePath :: string
  Size :: int
  Checksum :: string

text \<open>
  \<^verbatim>\<open>Download\<close> returns either an error or a result, never both: \<open>Inl\<close> is the error.
  \<open>destPath\<close> is the path the file is written to. The file is open from its
  creation until \<^verbatim>\<open>Download\<close> returns (\<^verbatim>\<open>defer out.Close()\<close>), so that \<^verbatim>\<open>os.Remove\<close> is
  called on a file that the process holds open.
\<close>

definition destPath :: "platform \<Rightarrow> DownloadOptions \<Rightarrow> string" where
  "destPath pf opts =
     Join pf [DestDir opts, if Filename opts = [] then Base pf (URL opts) else Filename opts]"

definition make_dir :: "string \<Rightarrow> (string \<rightharpoonup> node) \<Rightarrow> (string \<rightharpoonup> node)" where
  "make_dir d fs = (if fs d = None then fs(d \<mapsto> Dir) else fs)"

definition Download :: "platform \<Rightarrow> DownloadOptions \<Rightarrow> state \<Rightarrow> (error + Result) \<times> state" where
  "Download pf opts s0 =
     (let s1 = emit (MkdirAllEv (DestDir opts)) s0 in
      if \<not> MkdirAll_ok pf (trace s0) (DestDir opts) then (Inl CreateDirFailed, s1)
      else
        let s2 = s1\<lparr>files := make_dir (DestDir opts) (files s1)\<rparr>;
            s3 = emit (CreateEv (destPath pf opts)) s2
        in
        if \<not> Create_ok pf (trace s2) (destPath pf opts) then (Inl CreateFileFailed, s3)
        else
          let s4 = s3\<lparr>files := (files s3)(destPath pf opts \<mapsto> File [])\<rparr>;
              s5 = emit (HttpGetEv (URL opts)) s4
          in
          (case http_Get pf (trace s4) (URL opts) of
             None \<Rightarrow> (Inl DownloadFileFailed, s5)
           | Some resp \<Rightarrow>
              if StatusCode resp \<noteq> 200 then (Inl (BadStatus (Status resp)), s5)
              else
                let parts = Split (DownloadOptions.Checksum opts) (CHR '':'') in
                if DownloadOptions.Checksum opts \<noteq> [] \<and> length parts \<noteq> 2
                then (Inl InvalidChecksumFormat, s5)
                else if DownloadOptions.Checksum opts \<noteq> [] \<and> ToLower (parts ! 0) \<noteq> ''sha256''
                then (Inl (UnsupportedAlgorithm (ToLower (parts ! 0))), s5)
                else
                  (case io_Copy pf (trace s5) (destPath pf opts) of
                     Some n \<Rightarrow>
                       (Inl WriteFileFailed,
                        s5\<lparr>files := (files s5)(destPath pf opts \<mapsto> File (take n (Body resp)))\<rparr>)
                   | None \<Rightarrow>
                      let s6 = s5\<lparr>files := (files s5)(destPath pf opts \<mapsto> File (Body resp))\<rparr>
                      in
                      if DownloadOptions.Checksum opts \<noteq> [] then
                        let expectedChecksum = parts ! 1;
                            actualChecksum = sha256_hex pf (Body resp)
                        in
                        if \<not> EqualFold actualChecksum expectedChecksum
                        then (Inl (ChecksumMismatch expectedChecksum actualChecksum),
                              (emit (RemoveEv (destPath pf opts)) s6)
                                \<lparr>files := (if Remove_ok pf (trace s6) (destPath pf opts) True
                                           then (files s6)(destPath pf opts := None)
                                           else files s6)\<rparr>)
                        else (Inr \<lparr>FilePath = destPath pf opts,
                                   Size = int (length (Body resp)),
                                   Checksum = actualChecksum\<rparr>, s6)
                      else (Inr \<lparr>FilePath = destPath pf opts, Size = int (length (Body resp)),
                                 Checksum = []\<rparr>, s6))))"

text \<open>
  A platform for evaluating the model on concrete inputs: Unix conventions, paths joined
  with a slash, every system call succeeding, every command printing \<^verbatim>\<open>1.0.0\<close>. The
  digest function is a stand-in (the model never looks inside a digest).
\<close>

definition join_slash :: "string list \<Rightarrow> string" where
  "join_slash xs =
     (case filter (\<lambda>x. x \<noteq> []) xs of
        [] \<Rightarrow> []
      | y # ys \<Rightarrow> foldl (\<lambda>acc x. acc @ ''/'' @ x) y ys)"

definition last_segment :: "string \<Rightarrow> string" where
  "last_segment p = last (Split p (CHR ''/''))"

definition remove_under :: "string \<Rightarrow> (string \<rightharpoonup> node) \<Rightarrow> (string \<rightharpoonup> node)" where
  "remove_under d fs = (\<lambda>p. if p = d \<or> prefix (d @ ''/'') p then None else fs p)"

definition unix_platform :: platform where
  "unix_platform =
     \<lparr>GOOS = ''linux'', PathListSeparator = '':'', Join = join_slash, Base = last_segment,
      Clean = (\<lambda>p. p), sha256_hex = (\<lambda>b. ''00''), RemoveAll = remove_under,
      MkdirAll_ok = (\<lambda>tr d. True), Create_ok = (\<lambda>tr p. True),
      http_Get = (\<lambda>tr u. Some \<lparr>StatusCode = 200, Status = ''200 OK'', Body = ''data''\<rparr>),
      io_Copy = (\<lambda>tr p. None), Remove_ok = (\<lambda>tr p held. True),
      MkdirTemp = (\<lambda>tr. Some ''/tmp/depman-download-1''),
      exec_Command = (\<lambda>tr cmd. \<lparr>CombinedOutput = ''1.0.0'', failed = False, deadline_exceeded = False\<rparr>),
      Setenv_ok = (\<lambda>tr k v. True),
      range_order = (\<lambda>tr ks. ks)\<rparr>"

definition empty_state :: state where
  "empty_state =
     \<lparr>files = Map.empty, environ = [], logs = [],
      envManager = \<lparr>Variables = [], Paths = []\<rparr>, trace = []\<rparr>"

section \<open>environment.go: the environment accumulator\<close>

text \<open>
  A Go map with string keys is an association list with distinct keys. A \<^verbatim>\<open>range\<close> over
  it visits the keys in an order the language leaves open: the platform chooses it
  (\<open>range_order\<close>), and the choice is recorded in the trace.
\<close>

definition range_keys :: "platform \<Rightarrow> (string \<times> 'v) list \<Rightarrow> state \<Rightarrow> string list \<times> state" where
  "range_keys pf al s =
     (let ks = range_order pf (trace s) (map fst al) in (ks, emit (RangeEv ks) s))"

definition AddVariable :: "string \<Rightarrow> string \<Rightarrow> state \<Rightarrow> state" where
  "AddVariable key val s =
     s\<lparr>envManager := (envManager s)\<lparr>Variables :=
          AList.update key val (env_Manager.Variables (envManager s))\<rparr>\<rparr>"

definition AddPath :: "platform \<Rightarrow> string \<Rightarrow> state \<Rightarrow> state" where
  "AddPath pf path s =
     (if Clean pf path \<in> set (Paths (envManager s)) then s
      else s\<lparr>envManager := (envManager s)\<lparr>Paths := Paths (envManager s) @ [Clean pf path]\<rparr>\<rparr>)"

definition Environ :: "state \<Rightarrow> string list" where
  "Environ s = map (\<lambda>(k, v). k @ ''='' @ v) (environ s)"

definition Setenv :: "platform \<Rightarrow> string \<Rightarrow> string \<Rightarrow> state \<Rightarrow> bool \<times> state" where
  "Setenv pf key val s =
     (if Setenv_ok pf (trace s) key val
      then (True, (emit (SetenvEv key val) s)\<lparr>environ := AList.update key val (environ s)\<rparr>)
      else (False, emit (SetenvEv key val) s))"

definition strings_Join :: "string list \<Rightarrow> string \<Rightarrow> string" where
  "strings_Join xs sep = (case xs of [] \<Rightarrow> [] | y # ys \<Rightarrow> foldl (\<lambda>acc x. acc @ sep @ x) y ys)"

definition ExpandVariables :: "platform \<Rightarrow> string \<Rightarrow> state \<Rightarrow> string \<times> state" where
  "ExpandVariables pf text s =
     (let vars = env_Manager.Variables (envManager s);
          (ks, s1) = range_keys pf vars s;
          result1 = foldl (\<lambda>result key.
                      case map_of vars key of
                        Some val \<Rightarrow> ReplaceAll result (''{'' @ key @ ''}'') val
                      | None \<Rightarrow> result) text ks;
          result2 = foldl (\<lambda>result env.
                      case SplitN2 env (CHR ''='') of
                        [k, v] \<Rightarrow> ReplaceAll result (''{'' @ k @ ''}'') v
                      | _ \<Rightarrow> result) result1 (Environ s)
      in (result2, s1))"

fun set_variables ::
  "platform \<Rightarrow> (string \<times> string) list \<Rightarrow> string list \<Rightarrow> state \<Rightarrow> error option \<times> state" where
  "set_variables pf vars [] s = (None, s)"
| "set_variables pf vars (key # ks) s =
     (case map_of vars key of
        None \<Rightarrow> set_variables pf vars ks s
      | Some val \<Rightarrow>
         (case Setenv pf key val s of
            (False, s1) \<Rightarrow> (Some (SetenvFailed key), s1)
          | (True, s1) \<Rightarrow> set_variables pf vars ks s1))"

definition ApplyToCurrentProcess :: "platform \<Rightarrow> state \<Rightarrow> error option \<times> state" where
  "ApplyToCurrentProcess pf s =
     (let vars = env_Manager.Variables (envManager s);
          (ks, s1) = range_keys pf vars s
      in case set_variables pf vars ks s1 of
           (Some err, s2) \<Rightarrow> (Some err, s2)
         | (None, s2) \<Rightarrow>
            if length (Paths (envManager s2)) > 0 then
              let currentPath = Getenv s2 ''PATH'';
                  pathsToAdd = strings_Join (Paths (envManager s2)) (PathListSeparator pf);
                  newPath = (if currentPath \<noteq> []
                             then pathsToAdd @ PathListSeparator pf @ currentPath
                             else pathsToAdd)
              in case Setenv pf ''PATH'' newPath s2 of
                   (False, s3) \<Rightarrow> (Some UpdatePathFailed, s3)
                 | (True, s3) \<Rightarrow> (None, s3)
            else (None, s2))"

section \<open>The dependency manager: data model\<close>

record Version =
  Required :: string
  Constraint :: string

record Installer =
  Type :: string
  URL :: string
  Checksum :: string

record Commands =
  Install :: "string list"
  Verify :: "string list"
  Uninstall :: "string list"

record PlatformConfig =
  Installer :: Installer
  Commands :: Commands

text \<open>\<open>Path\<close> is \<open>None\<close> for the \<^verbatim>\<open>nil\<close> slice, which the source tells from an empty one.\<close>

record Environment =
  Path :: "string list option"
  Variables :: "(string \<times> string) list"

record Dependency =
  Name :: string
  Description :: string
  Version :: Version
  Platforms :: "string \<rightharpoonup> PlatformConfig"
  Environment :: Environment
  Dependencies :: "string list"

record DependencyConfig =
  Version :: string
  Name :: string
  Description :: string
  Dependencies :: "Dependency list"

text \<open>
  The manager's logger and environment accumulator live in \<open>state\<close>; \<open>Config\<close> is a
  pointer, \<open>None\<close> when \<^verbatim>\<open>nil\<close>.
\<close>

record Manager =
  Config :: "DependencyConfig option"
  ConfigPath :: string
  Platform :: string

record DependencyStatus =
  Name :: string
  Installed :: bool
  CurrentVersion :: string
  RequiredUpdate :: UpdateType
  Compatible :: bool
  Error :: "error option"

text \<open>A function that can panic returns \<open>Panic\<close> in place of its results.\<close>

datatype 'a outcome = Panic | Return 'a

type_synonym statuses = "(string \<times> DependencyStatus) list"

section \<open>The dependency manager: validation\<close>

definition GetPlatformConfig :: "Manager \<Rightarrow> Dependency \<Rightarrow> error + PlatformConfig" where
  "GetPlatformConfig m dep =
     (case Platforms dep (Platform m) of
        None \<Rightarrow> Inl (NoPlatformConfig (Platform m))
      | Some platform \<Rightarrow> Inr platform)"

text \<open>The body of the loop of \<^verbatim>\<open>validateDependencies\<close>: the errors one entry adds.\<close>

definition validate_dep :: "semver_lib \<Rightarrow> string \<Rightarrow> Dependency \<Rightarrow> error list" where
  "validate_dep lib platform dep =
     (if Platforms dep platform = None
      then [DepNoPlatform (Dependency.Name dep) platform]
      else
        (if Required (Dependency.Version dep) = []
         then [DepNoRequiredVersion (Dependency.Name dep)] else [])
        @ (if Constraint (Dependency.Version dep) \<noteq> []
              \<and> NewConstraint lib (Constraint (Dependency.Version dep)) = None
           then [DepInvalidConstraint (Dependency.Name dep) (Constraint (Dependency.Version dep))]
           else []))"

definition validateDependencies :: "semver_lib \<Rightarrow> Manager \<Rightarrow> error list outcome" where
  "validateDependencies lib m =
     (case Config m of
        None \<Rightarrow> Panic
      | Some cfg \<Rightarrow>
          if length (DependencyConfig.Dependencies cfg) = 0 then Return [NoDependenciesDefined]
          else Return (concat (map (validate_dep lib (Platform m))
                                   (DependencyConfig.Dependencies cfg))))"

definition validateConfiguration :: "semver_lib \<Rightarrow> Manager \<Rightarrow> error option outcome" where
  "validateConfiguration lib m =
     (case Config m of
        None \<Rightarrow> Return (Some NoConfigLoaded)
      | Some cfg \<Rightarrow>
         (case validateDependencies lib m of
            Panic \<Rightarrow> Panic
          | Return errors \<Rightarrow>
              if length errors > 0 then Return (Some (DependencyValidationErrors errors))
              else Return None))"

section \<open>The dependency manager: verification\<close>

text \<open>
  \<^verbatim>\<open>extractVersion\<close> tries three regular expressions in turn and returns the first
  group of the first that matches. Each is matched here by hand, at the leftmost position
  where it matches: \<open>match_core\<close> is \<^verbatim>\<open>\d+\.\d+\.\d+\<close> at the start of a string (the
  digit runs are maximal, since each must end before a dot or at the end of the group),
  and \<open>skip_v\<close> is the optional \<^verbatim>\<open>v\<close> in front of it.
\<close>

definition match_core :: "string \<Rightarrow> (string \<times> string) option" where
  "match_core s =
     (let d1 = takeWhile is_digit s in
      if d1 = [] then None
      else case dropWhile is_digit s of
        [] \<Rightarrow> None
      | c1 # r1 \<Rightarrow>
         let d2 = takeWhile is_digit r1 in
         if c1 \<noteq> CHR ''.'' \<or> d2 = [] then None
         else case dropWhile is_digit r1 of
           [] \<Rightarrow> None
         | c2 # r2 \<Rightarrow>
            let d3 = takeWhile is_digit r2 in
            if c2 \<noteq> CHR ''.'' \<or> d3 = [] then None
            else Some (d1 @ ''.'' @ d2 @ ''.'' @ d3, dropWhile is_digit r2))"

definition skip_v :: "string \<Rightarrow> string" where
  "skip_v s = (case s of [] \<Rightarrow> [] | c # cs \<Rightarrow> if c = CHR ''v'' then cs else c # cs)"

definition is_re_space :: "char \<Rightarrow> bool" where
  "is_re_space c = ((of_char c :: nat) \<in> {9, 10, 12, 13, 32})"

definition is_alnum_dash :: "char \<Rightarrow> bool" where
  "is_alnum_dash c =
     (is_digit c \<or> is_upper c \<or> (97 \<le> (of_char c :: nat) \<and> (of_char c :: nat) \<le> 122)
      \<or> c = CHR ''-'')"

definition pattern1 :: "string \<Rightarrow> string option" where
  "pattern1 s = map_option fst (match_core (skip_v s))"

definition pattern2 :: "string \<Rightarrow> string option" where
  "pattern2 s =
     (if prefix ''version'' s \<and> takeWhile is_re_space (drop 7 s) \<noteq> []
      then map_option fst (match_core (skip_v (dropWhile is_re_space (drop 7 s))))
      else None)"

definition pattern3 :: "string \<Rightarrow> string option" where
  "pattern3 s =
     (case match_core (skip_v s) of
        None \<Rightarrow> None
      | Some (v, rest) \<Rightarrow>
         (case rest of
            [] \<Rightarrow> None
          | c # r \<Rightarrow>
             if (c = CHR ''-'' \<or> c = CHR ''+'') \<and> takeWhile is_alnum_dash r \<noteq> []
             then Some v else None))"

fun first_match :: "(string \<Rightarrow> 'a option) \<Rightarrow> string \<Rightarrow> 'a option" where
  "first_match f [] = f []"
| "first_match f (c # cs) =
     (case f (c # cs) of Some r \<Rightarrow> Some r | None \<Rightarrow> first_match f cs)"

definition extractVersion :: "string \<Rightarrow> string" where
  "extractVersion output' =
     (case first_match pattern1 output' of
        Some v \<Rightarrow> v
      | None \<Rightarrow>
         (case first_match pattern2 output' of
            Some v \<Rightarrow> v
          | None \<Rightarrow>
             (case first_match pattern3 output' of
                Some v \<Rightarrow> v
              | None \<Rightarrow> output')))"

text \<open>
  The two checks that \<^verbatim>\<open>VerifyDependency\<close> makes once the verify command has
  succeeded: the update class, then the constraint.
\<close>

definition check_update ::
  "semver_lib \<Rightarrow> Dependency \<Rightarrow> DependencyStatus \<Rightarrow> state \<Rightarrow> DependencyStatus \<times> state" where
  "check_update lib dep status s =
     (if Required (Dependency.Version dep) \<noteq> [] then
        (case CheckVersionUpdate lib (CurrentVersion status) (Required (Dependency.Version dep)) of
           (_, Some err) \<Rightarrow>
             (status\<lparr>Error := Some err\<rparr>,
              logf LevelError ''Failed to check version update: %v'' s)
         | (updateType, None) \<Rightarrow>
             (status\<lparr>RequiredUpdate := updateType\<rparr>,
              if updateType \<noteq> NoUpdate
              then logf LevelInfo ''Dependency %s requires a %s (current: %s, required: %s)'' s
              else s))
      else (status, s))"

definition check_compatible ::
  "semver_lib \<Rightarrow> Dependency \<Rightarrow> DependencyStatus \<Rightarrow> state \<Rightarrow> DependencyStatus \<times> state" where
  "check_compatible lib dep status s =
     (if Constraint (Dependency.Version dep) \<noteq> [] then
        (case IsVersionCompatible lib (CurrentVersion status)
                (Constraint (Dependency.Version dep)) of
           (_, Some err) \<Rightarrow>
             (status\<lparr>Error := Some err\<rparr>,
              logf LevelError ''Failed to check version compatibility: %v'' s)
         | (compatible, None) \<Rightarrow>
             (status\<lparr>Compatible := compatible\<rparr>,
              if \<not> compatible
              then logf LevelInfo ''Dependency %s version %s is not compatible with constraint %s'' s
              else s))
      else (status\<lparr>Compatible := True\<rparr>, s))"

definition VerifyDependency ::
  "semver_lib \<Rightarrow> platform \<Rightarrow> Manager \<Rightarrow> Dependency \<Rightarrow> state
     \<Rightarrow> (DependencyStatus \<times> error option) \<times> state" where
  "VerifyDependency lib pf m dep s0 =
     (let status = \<lparr>DependencyStatus.Name = Dependency.Name dep, Installed = False,
                     CurrentVersion = [], RequiredUpdate = NoUpdate, Compatible = False,
                     Error = None\<rparr>
      in
      case GetPlatformConfig m dep of
        Inl err \<Rightarrow> ((status\<lparr>Error := Some err\<rparr>, Some err), s0)
      | Inr platformConfig \<Rightarrow>
         if length (Verify (Commands platformConfig)) = 0
         then ((status\<lparr>Error := Some (NoVerifyCommand (Dependency.Name dep))\<rparr>,
                Some (NoVerifyCommand (Dependency.Name dep))), s0)
         else
           let s1 = logf LevelInfo ''Verifying dependency: %s'' s0;
               r = exec_Command pf (trace s1) (Verify (Commands platformConfig));
               s2 = emit (VerifyEv (Dependency.Name dep) (Verify (Commands platformConfig))) s1;
               outputStr = TrimSpace (CombinedOutput r)
           in
           if deadline_exceeded r
           then ((status\<lparr>Error := Some VerifyTimeout\<rparr>, Some VerifyTimeout), s2)
           else if failed r
           then ((status\<lparr>Error := Some (VerifyFailed outputStr)\<rparr>,
                  Some (VerifyFailed outputStr)), s2)
           else
             let s3 = logf LevelInfo ''Dependency %s is installed'' s2;
                 version = extractVersion outputStr;
                 status1 = status\<lparr>Installed := True,
                                  CurrentVersion := (if version \<noteq> [] then version else outputStr)\<rparr>;
                 (status2, s4) = check_update lib dep status1 s3;
                 (status3, s5) = check_compatible lib dep status2 s4
             in ((status3, None), s5))"

definition CheckDependency ::
  "semver_lib \<Rightarrow> platform \<Rightarrow> Manager \<Rightarrow> Dependency \<Rightarrow> state
     \<Rightarrow> (DependencyStatus \<times> error option) \<times> state" where
  "CheckDependency lib pf m dep s = VerifyDependency lib pf m dep s"

section \<open>The dependency manager: installation\<close>

text \<open>
  \<open>download_step\<close> is the block of \<^verbatim>\<open>installDependency\<close> that downloads the installer
  when the platform bundle has a URL: it gives the download path, empty without a URL.
  \<open>install_in\<close> is the rest of the function once the temporary directory exists
  (\<open>enter_tempdir\<close>); the deferred \<^verbatim>\<open>os.RemoveAll\<close> runs when it is left, by a return
  or by a panic.
\<close>

definition download_step ::
  "platform \<Rightarrow> PlatformConfig \<Rightarrow> string \<Rightarrow> state \<Rightarrow> (error + string) \<times> state" where
  "download_step pf platformConfig tempDir s =
     (if Installer.URL (Installer platformConfig) \<noteq> [] then
        let s1 = logf LevelInfo ''Downloading %s from %s'' s;
            opts = \<lparr>DownloadOptions.URL = Installer.URL (Installer platformConfig),
                    Checksum = Installer.Checksum (Installer platformConfig),
                    DestDir = tempDir, Filename = [], ShowProgress = True\<rparr>
        in case Download pf opts s1 of
             (Inl err, s2) \<Rightarrow> (Inl (DownloadDependencyFailed err), s2)
           | (Inr result, s2) \<Rightarrow>
               (Inr (FilePath result), logf LevelInfo ''Downloaded %s (%d bytes)'' s2)
      else (Inr [], s))"

definition install_in ::
  "platform \<Rightarrow> Dependency \<Rightarrow> PlatformConfig \<Rightarrow> string \<Rightarrow> state
     \<Rightarrow> error option outcome \<times> state" where
  "install_in pf dep platformConfig tempDir s =
     (case download_step pf platformConfig tempDir s of
        (Inl err, s1) \<Rightarrow> (Return (Some err), s1)
      | (Inr downloadPath, s1) \<Rightarrow>
         let installCmd = map (\<lambda>arg. ReplaceAll arg ''{download_path}'' downloadPath)
                              (Install (Commands platformConfig));
             s2 = logf LevelInfo ''Installing %s using command: %s'' s1
         in
         if installCmd = [] then (Panic, s2)
         else
           let r = exec_Command pf (trace s2) installCmd;
               s3 = emit (InstallEv (Dependency.Name dep) installCmd) s2
           in
           if failed r then (Return (Some (InstallationFailed (CombinedOutput r))), s3)
           else (Return None, logf LevelInfo ''Successfully installed %s'' s3))"

definition enter_tempdir :: "string \<Rightarrow> state \<Rightarrow> state" where
  "enter_tempdir tempDir s = (emit MkdirTempEv s)\<lparr>files := make_dir tempDir (files s)\<rparr>"

definition installDependency ::
  "platform \<Rightarrow> Manager \<Rightarrow> Dependency \<Rightarrow> state \<Rightarrow> error option outcome \<times> state" where
  "installDependency pf m dep s =
     (case GetPlatformConfig m dep of
        Inl err \<Rightarrow> (Return (Some err), s)
      | Inr platformConfig \<Rightarrow>
         (case MkdirTemp pf (trace s) of
            None \<Rightarrow> (Return (Some TempDirFailed), emit MkdirTempEv s)
          | Some tempDir \<Rightarrow>
             (case install_in pf dep platformConfig tempDir (enter_tempdir tempDir s) of
                (r, s2) \<Rightarrow> (r, s2\<lparr>files := RemoveAll pf tempDir (files s2)\<rparr>))))"

fun add_paths :: "platform \<Rightarrow> string list \<Rightarrow> state \<Rightarrow> state" where
  "add_paths pf [] s = s"
| "add_paths pf (path # ps) s =
     (let (expandedPath, s1) = ExpandVariables pf path s;
          s2 = logf LevelDebug ''Added %s to PATH for dependency %s'' (AddPath pf expandedPath s1)
      in add_paths pf ps s2)"

fun add_variables :: "platform \<Rightarrow> (string \<times> string) list \<Rightarrow> string list \<Rightarrow> state \<Rightarrow> state" where
  "add_variables pf vars [] s = s"
| "add_variables pf vars (key # ks) s =
     (case map_of vars key of
        None \<Rightarrow> add_variables pf vars ks s
      | Some val \<Rightarrow>
         let (expandedValue, s1) = ExpandVariables pf val s;
             s2 = logf LevelDebug ''Set environment variable %s=%s for dependency %s''
                    (AddVariable key expandedValue s1)
         in add_variables pf vars ks s2)"

definition setupDependencyEnvironment ::
  "platform \<Rightarrow> Dependency \<Rightarrow> state \<Rightarrow> error option \<times> state" where
  "setupDependencyEnvironment pf dep s =
     (if Path (Environment dep) = None \<and> length (Environment.Variables (Environment dep)) = 0
      then (None, s)
      else
        let s1 = add_paths pf (case Path (Environment dep) of None \<Rightarrow> [] | Some ps \<Rightarrow> ps) s;
            (ks, s2) = range_keys pf (Environment.Variables (Environment dep)) s1
        in (None, add_variables pf (Environment.Variables (Environment dep)) ks s2))"

section \<open>The dependency manager: checking and ensuring all dependencies\<close>

text \<open>
  The status map is an association list from names to statuses; an entry is a pointer to
  a status of its own, so writing through it changes that entry only. \<open>None\<close> is the
  \<^verbatim>\<open>nil\<close> map.
\<close>

fun check_each ::
  "semver_lib \<Rightarrow> platform \<Rightarrow> Manager \<Rightarrow> Dependency list \<Rightarrow> statuses \<Rightarrow> state
     \<Rightarrow> statuses \<times> state" where
  "check_each lib pf m [] results s = (results, s)"
| "check_each lib pf m (dep # deps) results s =
     (case CheckDependency lib pf m dep s of
        ((status, _), s1) \<Rightarrow>
          check_each lib pf m deps (AList.update (Dependency.Name dep) status results) s1)"

definition CheckAllDependencies ::
  "semver_lib \<Rightarrow> platform \<Rightarrow> Manager \<Rightarrow> state
     \<Rightarrow> (statuses option \<times> error option) outcome \<times> state" where
  "CheckAllDependencies lib pf m s =
     (case validateDependencies lib m of
        Panic \<Rightarrow> (Panic, s)
      | Return errors \<Rightarrow>
          if length errors > 0 then (Return (None, Some (DependencyConfigErrors errors)), s)
          else
            (case Config m of
               None \<Rightarrow> (Panic, s)
             | Some cfg \<Rightarrow>
                (case check_each lib pf m (DependencyConfig.Dependencies cfg) [] s of
                   (results, s1) \<Rightarrow> (Return (Some results, None), s1))))"

definition up_to_date :: "DependencyStatus \<Rightarrow> bool" where
  "up_to_date status = (Installed status \<and> Compatible status \<and> RequiredUpdate status = NoUpdate)"

text \<open>
  The loop of \<^verbatim>\<open>EnsureDependencies\<close> over the keys of the status map, in the order the
  \<^verbatim>\<open>range\<close> visits them. The first component of the result is the error the loop
  returned with, \<open>Return None\<close> when it ran to its end.
\<close>

fun ensure_loop ::
  "semver_lib \<Rightarrow> platform \<Rightarrow> Manager \<Rightarrow> Dependency list \<Rightarrow> string list \<Rightarrow> statuses \<Rightarrow> state
     \<Rightarrow> error option outcome \<times> statuses \<times> state" where
  "ensure_loop lib pf m deps [] sts s = (Return None, sts, s)"
| "ensure_loop lib pf m deps (name # names) sts s =
     (case map_of sts name of
        None \<Rightarrow> ensure_loop lib pf m deps names sts s
      | Some status \<Rightarrow>
         if up_to_date status then ensure_loop lib pf m deps names sts s
         else
           (case find (\<lambda>d. Dependency.Name d = name) deps of
              None \<Rightarrow> (Return (Some (DependencyNotFound name)), sts, s)
            | Some dep \<Rightarrow>
               (case installDependency pf m dep s of
                  (Panic, s1) \<Rightarrow> (Panic, sts, s1)
                | (Return (Some err), s1) \<Rightarrow>
                    (Return (Some err),
                     AList.update name (status\<lparr>Error := Some err, Installed := False\<rparr>) sts, s1)
                | (Return None, s1) \<Rightarrow>
                   (case setupDependencyEnvironment pf dep s1 of
                      (envErr, s2) \<Rightarrow>
                        (case CheckDependency lib pf m dep
                                (if envErr \<noteq> None
                                 then logf LevelWarn
                                        ''Failed to set up environment for dependency %s: %v'' s2
                                 else s2) of
                           ((updatedStatus, Some err), s3) \<Rightarrow> (Return (Some err), sts, s3)
                         | ((updatedStatus, None), s3) \<Rightarrow>
                             ensure_loop lib pf m deps names
                               (AList.update name updatedStatus sts) s3)))))"

text \<open>
  What \<^verbatim>\<open>EnsureDependencies\<close> does after the loop has run to its end: apply the
  accumulated environment, and log a failure to do so.
\<close>

definition apply_environment :: "platform \<Rightarrow> state \<Rightarrow> state" where
  "apply_environment pf s =
     (case ApplyToCurrentProcess pf s of
        (Some err, s1) \<Rightarrow> logf LevelWarn ''Failed to apply environment changes: %v'' s1
      | (None, s1) \<Rightarrow> s1)"

definition EnsureDependencies ::
  "semver_lib \<Rightarrow> platform \<Rightarrow> Manager \<Rightarrow> state
     \<Rightarrow> (statuses option \<times> error option) outcome \<times> state" where
  "EnsureDependencies lib pf m s =
     (case validateConfiguration lib m of
        Panic \<Rightarrow> (Panic, s)
      | Return (Some err) \<Rightarrow> (Return (None, Some (InvalidConfiguration err)), s)
      | Return None \<Rightarrow>
         (case CheckAllDependencies lib pf m s of
            (Panic, s1) \<Rightarrow> (Panic, s1)
          | (Return (statuses, Some err), s1) \<Rightarrow> (Return (statuses, Some err), s1)
          | (Return (None, None), s1) \<Rightarrow> (Return (None, None), apply_environment pf s1)
          | (Return (Some sts, None), s1) \<Rightarrow>
             (case Config m of
                None \<Rightarrow> (Panic, s1)
              | Some cfg \<Rightarrow>
                 (case range_keys pf sts s1 of
                    (names, s2) \<Rightarrow>
                      (case ensure_loop lib pf m (DependencyConfig.Dependencies cfg) names sts s2 of
                         (Panic, sts', s3) \<Rightarrow> (Panic, s3)
                       | (Return (Some err), sts', s3) \<Rightarrow> (Return (Some sts', Some err), s3)
                       | (Return None, sts', s3) \<Rightarrow>
                           (Return (Some sts', None), apply_environment pf s3))))))"

section \<open>Observers and sample inputs\<close>

text \<open>
  What the platform answers during one call of \<open>Download\<close> from state \<open>s\<close>: whether the
  destination directory and the destination file can be created, what the GET request
  returns (\<open>None\<close> when the request itself fails), whether the copy of the body completes
  (\<open>None\<close>) or fails after some bytes, and whether the removal of the destination file,
  which the process holds open, succeeds.
\<close>

definition mkdir_answer :: "platform \<Rightarrow> DownloadOptions \<Rightarrow> state \<Rightarrow> bool" where
  "mkdir_answer pf opts s = MkdirAll_ok pf (trace s) (DestDir opts)"

definition create_answer :: "platform \<Rightarrow> DownloadOptions \<Rightarrow> state \<Rightarrow> bool" where
  "create_answer pf opts s =
     Create_ok pf (trace s @ [MkdirAllEv (DestDir opts)]) (destPath pf opts)"

definition http_answer :: "platform \<Rightarrow> DownloadOptions \<Rightarrow> state \<Rightarrow> response option" where
  "http_answer pf opts s =
     http_Get pf (trace s @ [MkdirAllEv (DestDir opts), CreateEv (destPath pf opts)])
       (DownloadOptions.URL opts)"

definition copy_answer :: "platform \<Rightarrow> DownloadOptions \<Rightarrow> state \<Rightarrow> nat option" where
  "copy_answer pf opts s =
     io_Copy pf (trace s @ [MkdirAllEv (DestDir opts), CreateEv (destPath pf opts),
                            HttpGetEv (DownloadOptions.URL opts)]) (destPath pf opts)"

definition remove_answer :: "platform \<Rightarrow> DownloadOptions \<Rightarrow> state \<Rightarrow> bool" where
  "remove_answer pf opts s =
     Remove_ok pf (trace s @ [MkdirAllEv (DestDir opts), CreateEv (destPath pf opts),
                              HttpGetEv (DownloadOptions.URL opts)]) (destPath pf opts) True"


definition sample_opts :: DownloadOptions where
  "sample_opts =
     \<lparr>DownloadOptions.URL = ''https://example.com/test.tar.gz'', Checksum = [],
      DestDir = ''/tmp/d'', Filename = [], ShowProgress = False\<rparr>"

text \<open>A platform whose server answers every request with the given status and body.\<close>

definition respond :: "int \<Rightarrow> string \<Rightarrow> string \<Rightarrow> platform" where
  "respond code st body =
     unix_platform\<lparr>http_Get := \<lambda>tr u. Some \<lparr>StatusCode = code, Status = st, Body = body\<rparr>,
                    sha256_hex := \<lambda>b. ''ab12''\<rparr>"

definition unreachable :: platform where
  "unreachable = unix_platform\<lparr>http_Get := \<lambda>tr u. None\<rparr>"


definition mismatched_opts :: DownloadOptions where
  "mismatched_opts = sample_opts\<lparr>DownloadOptions.Checksum := ''sha256:ff00''\<rparr>"

definition locked :: platform where
  "locked = (respond 200 ''200 OK'' ''data'')\<lparr>GOOS := ''windows'', Remove_ok := \<lambda>tr p held. \<not> held\<rparr>"

text \<open>
  Projections of the trace: the names of the dependencies for which an install command
  was started, in order, and the writes to the environment of the process.
\<close>

fun install_name :: "event \<Rightarrow> string list" where
  "install_name (InstallEv n c) = [n]"
| "install_name e = []"

definition installs :: "event list \<Rightarrow> string list" where
  "installs tr = concat (map install_name tr)"

fun is_setenv :: "event \<Rightarrow> bool" where
  "is_setenv (SetenvEv k v) = True"
| "is_setenv e = False"

definition setenvs :: "event list \<Rightarrow> event list" where
  "setenvs tr = filter is_setenv tr"

text \<open>\<open>untouched s s'\<close>: between \<open>s\<close> and \<open>s'\<close> the environment of the process was not written.\<close>

definition untouched :: "state \<Rightarrow> state \<Rightarrow> bool" where
  "untouched s s' = (environ s' = environ s \<and> setenvs (trace s') = setenvs (trace s))"

text \<open>The events one call of \<^verbatim>\<open>VerifyDependency\<close> adds to the trace.\<close>

definition verify_events :: "Manager \<Rightarrow> Dependency \<Rightarrow> event list" where
  "verify_events m dep =
     (case Platforms dep (Platform m) of
        None \<Rightarrow> []
      | Some pc \<Rightarrow>
          if Verify (Commands pc) = [] then []
          else [VerifyEv (Dependency.Name dep) (Verify (Commands pc))])"

text \<open>The entries of the status map that the loop of \<^verbatim>\<open>EnsureDependencies\<close> does not skip.\<close>

definition needs_install :: "statuses \<Rightarrow> string \<Rightarrow> bool" where
  "needs_install sts name =
     (case map_of sts name of None \<Rightarrow> False | Some status \<Rightarrow> \<not> up_to_date status)"

text \<open>
  Sample manifests: \<open>tool n c\<close> is a dependency named \<open>n\<close> with required version
  \<^verbatim>\<open>1.0.0\<close> and constraint \<open>c\<close>, verified by \<^verbatim>\<open>n --version\<close> and installed by
  \<^verbatim>\<open>install n\<close> on Linux; \<open>manager_of deps\<close> is a manager on Linux whose manifest
  declares \<open>deps\<close>. On the platform \<open>printing out\<close> every command succeeds and prints
  \<open>out\<close>.
\<close>

definition tool_bundle :: "string \<Rightarrow> PlatformConfig" where
  "tool_bundle n =
     \<lparr>Installer = \<lparr>Type = ''binary'', URL = [], Checksum = []\<rparr>,
      Commands = \<lparr>Install = [''install'', n], Verify = [n, ''--version''], Uninstall = []\<rparr>\<rparr>"

definition tool :: "string \<Rightarrow> string \<Rightarrow> Dependency" where
  "tool n c =
     \<lparr>Dependency.Name = n, Description = [],
      Version = \<lparr>Required = ''1.0.0'', Constraint = c\<rparr>,
      Platforms = [''linux'' \<mapsto> tool_bundle n],
      Environment = \<lparr>Path = None, Variables = []\<rparr>,
      Dependencies = []\<rparr>"

definition config_of :: "Dependency list \<Rightarrow> DependencyConfig" where
  "config_of deps =
     \<lparr>DependencyConfig.Version = ''1.0'', Name = ''app'', Description = [],
      Dependencies = deps\<rparr>"

definition manager_of :: "Dependency list \<Rightarrow> Manager" where
  "manager_of deps =
     \<lparr>Config = Some (config_of deps), ConfigPath = ''app-dependencies.yml'',
      Platform = ''linux''\<rparr>"

definition printing :: "string \<Rightarrow> platform" where
  "printing out =
     unix_platform\<lparr>exec_Command := \<lambda>tr cmd.
        \<lparr>CombinedOutput = out, failed = False, deadline_exceeded = False\<rparr>\<rparr>"

text \<open>
  \<open>bare n\<close> is \<open>tool n\<close> with an empty install template. On the platform \<open>failing\<close>
  every command fails.
\<close>

definition without_install :: "PlatformConfig \<Rightarrow> PlatformConfig" where
  "without_install pc = pc\<lparr>Commands := (Commands pc)\<lparr>Install := []\<rparr>\<rparr>"

definition bare :: "string \<Rightarrow> Dependency" where
  "bare n = (tool n [])\<lparr>Platforms := [''linux'' \<mapsto> without_install (tool_bundle n)]\<rparr>"

definition failing :: platform where
  "failing =
     unix_platform\<lparr>exec_Command := \<lambda>tr cmd.
        \<lparr>CombinedOutput = ''not found'', failed = True, deadline_exceeded = False\<rparr>\<rparr>"

text \<open>
  The manifest fails validation: it declares no dependency, or some entry lacks a bundle
  for the platform, lacks a required version, or has a constraint that does not parse.
\<close>

definition invalid_manifest :: "semver_lib \<Rightarrow> string \<Rightarrow> Dependency list \<Rightarrow> bool" where
  "invalid_manifest lib platform deps =
     (deps = [] \<or>
      (\<exists>d \<in> set deps.
          Platforms d platform = None
          \<or> Required (Dependency.Version d) = []
          \<or> (Constraint (Dependency.Version d) \<noteq> []
              \<and> NewConstraint lib (Constraint (Dependency.Version d)) = None)))"

text \<open>The states in which \<^verbatim>\<open>CheckAllDependencies\<close> checks the entries of a list, in order.\<close>

fun check_states ::
  "semver_lib \<Rightarrow> platform \<Rightarrow> Manager \<Rightarrow> Dependency list \<Rightarrow> state \<Rightarrow> state list" where
  "check_states lib pf m [] s = []"
| "check_states lib pf m (d # ds) s =
     s # check_states lib pf m ds (snd (CheckDependency lib pf m d s))"

definition status_at ::
  "semver_lib \<Rightarrow> platform \<Rightarrow> Manager \<Rightarrow> Dependency \<Rightarrow> state \<Rightarrow> string \<times> DependencyStatus" where
  "status_at lib pf m d s = (Dependency.Name d, fst (fst (CheckDependency lib pf m d s)))"

text \<open>
  A machine on which nothing is installed yet: \<^verbatim>\<open>n --version\<close> succeeds and prints
  \<^verbatim>\<open>1.0.0\<close> once an install command for \<open>n\<close> has been started, \<^verbatim>\<open>install n\<close>
  succeeds unless \<open>n\<close> is in \<open>broken\<close>, every other command fails. \<open>ro\<close> is the order in
  which a \<^verbatim>\<open>range\<close> visits the keys of a map.
\<close>

definition fresh_ok :: "string list \<Rightarrow> event list \<Rightarrow> string list \<Rightarrow> bool" where
  "fresh_ok broken tr cmd =
     (case cmd of
        [x, y] \<Rightarrow>
          if y = ''--version'' then x \<in> set (installs tr)
          else x = ''install'' \<and> y \<notin> set broken
      | _ \<Rightarrow> False)"

definition fresh_machine :: "string list \<Rightarrow> (string list \<Rightarrow> string list) \<Rightarrow> platform" where
  "fresh_machine broken ro =
     unix_platform\<lparr>exec_Command := \<lambda>tr cmd.
        if fresh_ok broken tr cmd
        then \<lparr>CombinedOutput = ''1.0.0'', failed = False, deadline_exceeded = False\<rparr>
        else \<lparr>CombinedOutput = ''not found'', failed = True, deadline_exceeded = False\<rparr>,
       range_order := \<lambda>tr ks. ro ks\<rparr>"

definition with_env :: "Dependency \<Rightarrow> (string \<times> string) list \<Rightarrow> Dependency" where
  "with_env d vars = d\<lparr>Environment := \<lparr>Path = None, Variables = vars\<rparr>\<rparr>"

definition missing :: "string \<Rightarrow> DependencyStatus" where
  "missing n =
     \<lparr>DependencyStatus.Name = n, Installed = False, CurrentVersion = [],
      RequiredUpdate = NoUpdate, Compatible = False, Error = Some (VerifyFailed ''not found'')\<rparr>"

definition present :: "string \<Rightarrow> DependencyStatus" where
  "present n =
     \<lparr>DependencyStatus.Name = n, Installed = True, CurrentVersion = ''1.0.0'',
      RequiredUpdate = NoUpdate, Compatible = True, Error = None\<rparr>"

text \<open>
  Three runs of \<^verbatim>\<open>EnsureDependencies\<close> on a fresh machine, for a manifest that declares
  \<^verbatim>\<open>a\<close>, which sets the variable \<^verbatim>\<open>FOO\<close>, and then \<^verbatim>\<open>b\<close>: one in which the install
  of \<^verbatim>\<open>b\<close> fails, one in which both installs succeed, and one in which they succeed
  but the environment of the process cannot be written.
\<close>

definition a_then_b :: "Dependency list" where
  "a_then_b = [with_env (tool ''a'' []) [(''FOO'', ''bar'')], tool ''b'' []]"

definition two_tools :: Manager where
  "two_tools = manager_of a_then_b"

definition aborted_run :: "(statuses option \<times> error option) outcome \<times> state" where
  "aborted_run = EnsureDependencies plain_lib (fresh_machine [''b''] id) two_tools empty_state"

definition completed_run :: "(statuses option \<times> error option) outcome \<times> state" where
  "completed_run = EnsureDependencies plain_lib (fresh_machine [] id) two_tools empty_state"

definition read_only :: platform where
  "read_only = (fresh_machine [] id)\<lparr>Setenv_ok := \<lambda>tr k v. False\<rparr>"

definition unapplied_run :: "(statuses option \<times> error option) outcome \<times> state" where
  "unapplied_run = EnsureDependencies plain_lib read_only two_tools empty_state"

text \<open>The same manifest when the \<^verbatim>\<open>range\<close> over the status map visits \<^verbatim>\<open>b\<close> first.\<close>

definition reversed_run :: "(statuses option \<times> error option) outcome \<times> state" where
  "reversed_run = EnsureDependencies plain_lib (fresh_machine [] rev) two_tools empty_state"

text \<open>
  The same manifest on a machine where the install of \<^verbatim>\<open>a\<close>, the first one, fails.
\<close>

definition halted_run :: "(statuses option \<times> error option) outcome \<times> state" where
  "halted_run = EnsureDependencies plain_lib (fresh_machine [''a''] id) two_tools empty_state"

text \<open>
  Install commands that fail, read off the trace. \<open>install_fails pf tr e\<close>: the event
  \<open>e\<close>, coming after the trace \<open>tr\<close>, is the start of an install command that the
  platform lets fail. \<open>clean pf tr evs\<close>: among the events \<open>evs\<close> that follow \<open>tr\<close> no
  install command fails. \<open>halts_at_failure pf tr evs\<close>: no install command fails in
  \<open>evs\<close>, unless it is the last event of \<open>evs\<close>.
\<close>

fun install_fails :: "platform \<Rightarrow> event list \<Rightarrow> event \<Rightarrow> bool" where
  "install_fails pf tr (InstallEv n cmd) = failed (exec_Command pf tr cmd)"
| "install_fails pf tr e = False"

fun clean :: "platform \<Rightarrow> event list \<Rightarrow> event list \<Rightarrow> bool" where
  "clean pf tr [] = True"
| "clean pf tr (e # es) = (\<not> install_fails pf tr e \<and> clean pf (tr @ [e]) es)"

definition halts_at_failure :: "platform \<Rightarrow> event list \<Rightarrow> event list \<Rightarrow> bool" where
  "halts_at_failure pf tr evs =
     (clean pf tr evs
      \<or> (evs \<noteq> [] \<and> clean pf tr (butlast evs)
          \<and> install_fails pf (tr @ butlast evs) (last evs)))"

section \<open>Properties of version classification\<close>

text \<open>
  C2. The claim: whenever both strings parse and \<open>current\<close> is newer than or equal to
  \<open>required\<close>, \<^verbatim>\<open>CheckVersionUpdate\<close> returns \<open>NoUpdate\<close>. The source compares minor and
  patch without looking at the components before them: with current \<^verbatim>\<open>2.0.0\<close> and
  required \<^verbatim>\<open>1.5.0\<close>, both of which parse and the first of which is the greater
  (\<open>Compare\<close> gives 1), it reports a minor update.
\<close>

theorem CheckVersionUpdate_newer_current_minor:
  "NewVersion plain_lib ''2.0.0''
     = Some \<lparr>major = 2, minor = 0, patch = 0, pre = [], metadata = []\<rparr>
   \<and> NewVersion plain_lib ''1.5.0''
     = Some \<lparr>major = 1, minor = 5, patch = 0, pre = [], metadata = []\<rparr>
   \<and> Compare \<lparr>major = 2, minor = 0, patch = 0, pre = [], metadata = []\<rparr>
              \<lparr>major = 1, minor = 5, patch = 0, pre = [], metadata = []\<rparr> = 1
   \<and> CheckVersionUpdate plain_lib ''2.0.0'' ''1.5.0'' = (MinorUpdate, None)"
  by (simp add: CheckVersionUpdate_def plain_lib_def Equal_def Compare_def compareSegment_def
        plain_version_def ParseUint_def digits_value_def is_digit_def)

section \<open>Properties of the manifest search\<close>

text \<open>
  C6. The claim: with an explicit path that does not exist (nor its \<^verbatim>\<open>.yml\<close> variant),
  \<^verbatim>\<open>FindDependencyFile\<close> fails without probing the conventional locations. The source
  falls through to them: with \<^verbatim>\<open>app-dependencies.yml\<close> in the working directory, the
  explicit path \<^verbatim>\<open>not-exists.yml\<close> yields that file and no error.
\<close>

theorem FindDependencyFile_falls_back:
  "(let s = empty_state\<lparr>files := [''app-dependencies.yml'' \<mapsto> File ''version: 1'']\<rparr>
    in \<not> Stat_ok s ''not-exists.yml''
       \<and> FindDependencyFile unix_platform s ''not-exists.yml'' = (''app-dependencies.yml'', None))"
  by (simp add: FindDependencyFile_def Stat_ok_def empty_state_def HasSuffix_def searchPaths_def)

section \<open>Properties of the downloader\<close>

lemmas dl_defs = Download_def Let_def emit_def mkdir_answer_def create_answer_def http_answer_def
  copy_answer_def remove_answer_def

lemmas sample_defs = sample_opts_def mismatched_opts_def respond_def unreachable_def locked_def
  unix_platform_def
  empty_state_def destPath_def join_slash_def last_segment_def

lemma Download_mismatch_outcome:
  assumes "DownloadOptions.Checksum opts \<noteq> []"
    and "mkdir_answer pf opts s" and "create_answer pf opts s"
    and "http_answer pf opts s = Some resp" and "StatusCode resp = 200"
    and "Split (DownloadOptions.Checksum opts) (CHR '':'') = [alg, expected]"
    and "ToLower alg = ''sha256''" and "copy_answer pf opts s = None"
    and "\<not> EqualFold (sha256_hex pf (Body resp)) expected"
  shows "fst (Download pf opts s) = Inl (ChecksumMismatch expected (sha256_hex pf (Body resp)))
    \<and> files (snd (Download pf opts s)) (destPath pf opts)
        = (if remove_answer pf opts s then None else Some (File (Body resp)))"
  using assms by (auto simp: dl_defs)

text \<open>
  A download with a requested checksum whose stream completes: the directory and the
  file were created, the server answered 200, the checksum has the form
  \<^verbatim>\<open>algorithm:hash\<close> with algorithm \<^verbatim>\<open>sha256\<close> in any case, and the copy completed.
  Then the digest of the body is compared with the expected one by \<open>EqualFold\<close>, that is
  without regard to case. If they differ the call fails with \<open>ChecksumMismatch\<close> carrying
  the expected and the computed digest, after it has tried to remove the file: when that
  removal succeeds no file is left at the destination path. If they agree the call
  returns the destination path, the number of bytes of the body and the computed digest,
  and the file holds the body.
\<close>

lemma Download_checksum_compared:
  assumes "DownloadOptions.Checksum opts \<noteq> []"
    and "mkdir_answer pf opts s" and "create_answer pf opts s"
    and "http_answer pf opts s = Some resp" and "StatusCode resp = 200"
    and "Split (DownloadOptions.Checksum opts) (CHR '':'') = [alg, expected]"
    and "ToLower alg = ''sha256''" and "copy_answer pf opts s = None"
    and "Download pf opts s = (r, s')"
  shows "if EqualFold (sha256_hex pf (Body resp)) expected
         then r = Inr \<lparr>FilePath = destPath pf opts, Size = int (length (Body resp)),
                        Checksum = sha256_hex pf (Body resp)\<rparr>
              \<and> files s' (destPath pf opts) = Some (File (Body resp))
         else r = Inl (ChecksumMismatch expected (sha256_hex pf (Body resp)))
              \<and> last (trace s') = RemoveEv (destPath pf opts)
              \<and> (remove_answer pf opts s \<longrightarrow> files s' (destPath pf opts) = None)"
  using assms by (auto simp: dl_defs)

lemma Download_checksum_compared_example:
  "(let pf = respond 200 ''200 OK'' ''data'';
        bad = sample_opts\<lparr>DownloadOptions.Checksum := ''sha256:ff00''\<rparr>;
        good = sample_opts\<lparr>DownloadOptions.Checksum := ''SHA256:AB12''\<rparr>
    in fst (Download pf bad empty_state) = Inl (ChecksumMismatch ''ff00'' ''ab12'')
       \<and> files (snd (Download pf bad empty_state)) ''/tmp/d/test.tar.gz'' = None
       \<and> fst (Download pf good empty_state)
           = Inr \<lparr>FilePath = ''/tmp/d/test.tar.gz'', Size = 4, Checksum = ''ab12''\<rparr>
       \<and> files (snd (Download pf good empty_state)) ''/tmp/d/test.tar.gz'' = Some (File ''data''))"
proof -
  let ?pf = "respond 200 ''200 OK'' ''data''"
  let ?bad = "sample_opts\<lparr>DownloadOptions.Checksum := ''sha256:ff00''\<rparr>"
  let ?good = "sample_opts\<lparr>DownloadOptions.Checksum := ''SHA256:AB12''\<rparr>"
  let ?resp = "\<lparr>StatusCode = 200, Status = ''200 OK'', Body = ''data''\<rparr>"
  have d: "destPath ?pf ?bad = ''/tmp/d/test.tar.gz''" "destPath ?pf ?good = ''/tmp/d/test.tar.gz''"
    by (simp_all add: sample_defs)
  have a: "mkdir_answer ?pf ?bad empty_state" "create_answer ?pf ?bad empty_state"
          "http_answer ?pf ?bad empty_state = Some ?resp"
          "mkdir_answer ?pf ?good empty_state" "create_answer ?pf ?good empty_state"
          "http_answer ?pf ?good empty_state = Some ?resp"
    by (simp_all add: mkdir_answer_def create_answer_def http_answer_def respond_def
          unix_platform_def)
  have c: "copy_answer ?pf ?bad empty_state = None" "copy_answer ?pf ?good empty_state = None"
          "remove_answer ?pf ?bad empty_state"
    by (simp_all add: copy_answer_def remove_answer_def respond_def unix_platform_def)
  have sp: "Split (DownloadOptions.Checksum ?bad) (CHR '':'') = [''sha256'', ''ff00'']"
           "Split (DownloadOptions.Checksum ?good) (CHR '':'') = [''SHA256'', ''AB12'']"
    by (simp_all add: sample_opts_def)
  have lo: "ToLower ''sha256'' = ''sha256''" "ToLower ''SHA256'' = ''sha256''"
    by code_simp+
  have sh: "sha256_hex ?pf ''data'' = ''ab12''"
    by (simp add: respond_def unix_platform_def)
  have ef: "\<not> EqualFold ''ab12'' ''ff00''" "EqualFold ''ab12'' ''AB12''"
    by code_simp+
  have ne: "DownloadOptions.Checksum ?bad \<noteq> []" "DownloadOptions.Checksum ?good \<noteq> []"
    by (simp_all add: sample_opts_def)
  from Download_checksum_compared
         [OF ne(1) a(1) a(2) a(3) _ sp(1) lo(1) c(1) surjective_pairing]
       Download_checksum_compared
         [OF ne(2) a(4) a(5) a(6) _ sp(2) lo(2) c(2) surjective_pairing]
  show ?thesis using d sh ef c(3) by (simp add: Let_def)
qed

text \<open>
  C4. The claim: on a checksum mismatch the written destination file is deleted and does
  not exist after the call. The source means to do so (\<^verbatim>\<open>// Remove the file if checksum
  verification fails\<close>), but it calls \<^verbatim>\<open>os.Remove\<close> while the file is still open (the
  deferred \<^verbatim>\<open>out.Close\<close> runs only when \<^verbatim>\<open>Download\<close> returns) and drops the error of
  the removal. Where the removal of a file that is held open fails, as on Windows, a
  download of the body \<^verbatim>\<open>data\<close> with the expected digest \<^verbatim>\<open>ff00\<close> fails with
  \<open>ChecksumMismatch\<close>, and the file is still at the destination path, holding the body.
\<close>

theorem Download_mismatch_file_kept:
  "DownloadOptions.Checksum mismatched_opts = ''sha256:ff00''
   \<and> sha256_hex locked ''data'' = ''ab12''
   \<and> \<not> remove_answer locked mismatched_opts empty_state
   \<and> fst (Download locked mismatched_opts empty_state)
       = Inl (ChecksumMismatch ''ff00'' ''ab12'')
   \<and> files (snd (Download locked mismatched_opts empty_state)) ''/tmp/d/test.tar.gz''
       = Some (File ''data'')"
proof -
  let ?resp = "\<lparr>StatusCode = 200, Status = ''200 OK'', Body = ''data''\<rparr>"
  have a: "DownloadOptions.Checksum mismatched_opts \<noteq> []"
          "mkdir_answer locked mismatched_opts empty_state"
          "create_answer locked mismatched_opts empty_state"
          "http_answer locked mismatched_opts empty_state = Some ?resp"
          "StatusCode ?resp = 200"
          "Split (DownloadOptions.Checksum mismatched_opts) (CHR '':'') = [''sha256'', ''ff00'']"
    by (simp_all add: mkdir_answer_def create_answer_def http_answer_def sample_defs)
  have lo: "ToLower ''sha256'' = ''sha256''" by code_simp
  have c: "copy_answer locked mismatched_opts empty_state = None"
          "\<not> remove_answer locked mismatched_opts empty_state"
          "sha256_hex locked ''data'' = ''ab12''"
          "destPath locked mismatched_opts = ''/tmp/d/test.tar.gz''"
          "DownloadOptions.Checksum mismatched_opts = ''sha256:ff00''"
    by (simp_all add: copy_answer_def remove_answer_def sample_defs)
  have "\<not> EqualFold ''ab12'' ''ff00''" by code_simp
  then have ef: "\<not> EqualFold (sha256_hex locked (Body ?resp)) ''ff00''"
    by (simp add: c(3))
  from Download_mismatch_outcome [OF a lo c(1) ef] c show ?thesis by simp
qed




text \<open>
  C10. \<open>Download\<close> creates the destination file before it issues the request: its first
  three interactions are the creation of the directory, the creation of the file and the
  GET request, in this order. Hence, once the file is created, a call that fails because
  the request fails or because the status is rejected leaves an empty file at the
  destination path; and whenever no file is left there, the call has failed with
  \<open>ChecksumMismatch\<close>: no other path removes the file.
\<close>

theorem Download_file_left_behind:
  assumes "mkdir_answer pf opts s" and "create_answer pf opts s"
    and "Download pf opts s = (r, s')"
  shows "take 3 (drop (length (trace s)) (trace s'))
           = [MkdirAllEv (DestDir opts), CreateEv (destPath pf opts),
              HttpGetEv (DownloadOptions.URL opts)]
       \<and> (http_answer pf opts s = None \<longrightarrow>
             r = Inl DownloadFileFailed \<and> files s' (destPath pf opts) = Some (File []))
       \<and> (\<forall>resp. http_answer pf opts s = Some resp \<and> StatusCode resp \<noteq> 200 \<longrightarrow>
             r = Inl (BadStatus (Status resp)) \<and> files s' (destPath pf opts) = Some (File []))
       \<and> (files s' (destPath pf opts) = None \<longrightarrow> (\<exists>e a. r = Inl (ChecksumMismatch e a)))"
  using assms by (auto simp: dl_defs split: option.splits if_splits)

theorem Download_file_left_behind_witness:
  "fst (Download unreachable sample_opts empty_state) = Inl DownloadFileFailed
   \<and> files (snd (Download unreachable sample_opts empty_state)) ''/tmp/d/test.tar.gz''
       = Some (File [])
   \<and> fst (Download (respond 503 ''503 Service Unavailable'' ''busy'') sample_opts empty_state)
       = Inl (BadStatus ''503 Service Unavailable'')
   \<and> files (snd (Download (respond 503 ''503 Service Unavailable'' ''busy'') sample_opts
                     empty_state)) ''/tmp/d/test.tar.gz'' = Some (File [])"
proof -
  let ?pf = "respond 503 ''503 Service Unavailable'' ''busy''"
  have a: "mkdir_answer unreachable sample_opts empty_state"
          "create_answer unreachable sample_opts empty_state"
          "http_answer unreachable sample_opts empty_state = None"
          "destPath unreachable sample_opts = ''/tmp/d/test.tar.gz''"
    by (simp_all add: mkdir_answer_def create_answer_def http_answer_def sample_defs)
  have b: "mkdir_answer ?pf sample_opts empty_state"
          "create_answer ?pf sample_opts empty_state"
          "http_answer ?pf sample_opts empty_state
             = Some \<lparr>StatusCode = 503, Status = ''503 Service Unavailable'', Body = ''busy''\<rparr>"
          "destPath ?pf sample_opts = ''/tmp/d/test.tar.gz''"
    by (simp_all add: mkdir_answer_def create_answer_def http_answer_def sample_defs)
  from Download_file_left_behind [OF a(1) a(2) surjective_pairing]
       Download_file_left_behind [OF b(1) b(2) surjective_pairing]
  show ?thesis using a(3,4) b(3,4) by simp
qed

section \<open>What each operation leaves unchanged\<close>

lemma logf_simps [simp]:
  "environ (logf l f s) = environ s" "trace (logf l f s) = trace s"
  "files (logf l f s) = files s" "envManager (logf l f s) = envManager s"
  "logs (logf l f s) = logs s @ [(l, f)]"
  by (simp_all add: logf_def)

lemma emit_simps [simp]:
  "environ (emit e s) = environ s" "trace (emit e s) = trace s @ [e]"
  "files (emit e s) = files s" "envManager (emit e s) = envManager s"
  "logs (emit e s) = logs s"
  by (simp_all add: emit_def)

lemma installs_simps [simp]:
  "installs [] = []" "installs (tr @ tr') = installs tr @ installs tr'"
  "installs (e # tr) = install_name e @ installs tr"
  by (simp_all add: installs_def)

lemma setenvs_simps [simp]:
  "setenvs [] = []" "setenvs (tr @ tr') = setenvs tr @ setenvs tr'"
  "setenvs (e # tr) = (if is_setenv e then e # setenvs tr else setenvs tr)"
  by (simp_all add: setenvs_def)

lemma untouched_refl [simp]: "untouched s s"
  by (simp add: untouched_def)

lemma untouched_trans: "untouched s s1 \<Longrightarrow> untouched s1 s2 \<Longrightarrow> untouched s s2"
  by (simp add: untouched_def)

lemma untouched_logf [simp]:
  "untouched s (logf l f s') = untouched s s'" "untouched (logf l f s) s' = untouched s s'"
  by (simp_all add: untouched_def)

lemma Download_frame:
  "Download pf opts s = (r, s') \<Longrightarrow>
     untouched s s' \<and> installs (trace s') = installs (trace s)
     \<and> envManager s' = envManager s \<and> logs s' = logs s"
  by (auto simp: Download_def Let_def untouched_def split: option.splits if_splits)

lemma download_step_frame:
  "download_step pf pc d s = (r, s') \<Longrightarrow>
     untouched s s' \<and> installs (trace s') = installs (trace s) \<and> envManager s' = envManager s"
  by (auto simp: download_step_def Let_def untouched_def split: prod.splits sum.splits if_splits
      dest!: Download_frame)

lemma install_in_frame:
  "install_in pf dep pc d s = (r, s') \<Longrightarrow>
     untouched s s' \<and> envManager s' = envManager s
     \<and> (installs (trace s') = installs (trace s)
         \<or> installs (trace s') = installs (trace s) @ [Dependency.Name dep])
     \<and> (r = Return None \<longrightarrow> installs (trace s') = installs (trace s) @ [Dependency.Name dep])"
  by (auto simp: install_in_def Let_def untouched_def split: prod.splits sum.splits if_splits
      dest!: download_step_frame)

lemma installDependency_frame:
  "installDependency pf m dep s = (r, s') \<Longrightarrow>
     untouched s s' \<and> envManager s' = envManager s
     \<and> (installs (trace s') = installs (trace s)
         \<or> installs (trace s') = installs (trace s) @ [Dependency.Name dep])
     \<and> (r = Return None \<longrightarrow> installs (trace s') = installs (trace s) @ [Dependency.Name dep])"
  by (auto simp: installDependency_def enter_tempdir_def untouched_def
      split: prod.splits sum.splits option.splits dest!: install_in_frame)


lemma range_keys_frame:
  "range_keys pf al s = (ks, s') \<Longrightarrow>
     untouched s s' \<and> installs (trace s') = installs (trace s)
     \<and> envManager s' = envManager s \<and> logs s' = logs s
     \<and> ks = range_order pf (trace s) (map fst al)"
  by (auto simp: range_keys_def Let_def untouched_def)

lemma ExpandVariables_frame:
  "ExpandVariables pf t s = (r, s') \<Longrightarrow>
     untouched s s' \<and> installs (trace s') = installs (trace s)"
  by (auto simp: ExpandVariables_def Let_def split: prod.splits dest!: range_keys_frame)

lemma untouched_AddPath [simp]:
  "untouched s (AddPath pf p s') = untouched s s'" "untouched (AddPath pf p s) s' = untouched s s'"
  by (simp_all add: untouched_def AddPath_def)

lemma untouched_AddVariable [simp]:
  "untouched s (AddVariable k v s') = untouched s s'"
  "untouched (AddVariable k v s) s' = untouched s s'"
  by (simp_all add: untouched_def AddVariable_def)

lemma trace_AddPath [simp]: "trace (AddPath pf p s) = trace s"
  by (simp add: AddPath_def)

lemma trace_AddVariable [simp]: "trace (AddVariable k v s) = trace s"
  by (simp add: AddVariable_def)

lemma add_paths_frame:
  "untouched s (add_paths pf ps s) \<and> installs (trace (add_paths pf ps s)) = installs (trace s)"
proof (induction ps arbitrary: s)
  case Nil
  show ?case by simp
next
  case (Cons p ps)
  obtain r s1 where e: "ExpandVariables pf p s = (r, s1)" by (cases "ExpandVariables pf p s")
  let ?s2 = "logf LevelDebug ''Added %s to PATH for dependency %s'' (AddPath pf r s1)"
  from ExpandVariables_frame [OF e] have "untouched s ?s2" "installs (trace ?s2) = installs (trace s)"
    by simp_all
  with Cons.IH [of ?s2] show ?case
    by (auto simp: e Let_def intro: untouched_trans)
qed

lemma add_variables_frame:
  "untouched s (add_variables pf vars ks s)
   \<and> installs (trace (add_variables pf vars ks s)) = installs (trace s)"
proof (induction ks arbitrary: s)
  case Nil
  show ?case by simp
next
  case (Cons k ks)
  show ?case
  proof (cases "map_of vars k")
    case None
    with Cons.IH [of s] show ?thesis by simp
  next
    case (Some v)
    obtain r s1 where e: "ExpandVariables pf v s = (r, s1)" by (cases "ExpandVariables pf v s")
    let ?s2 = "logf LevelDebug ''Set environment variable %s=%s for dependency %s''
                 (AddVariable k r s1)"
    from ExpandVariables_frame [OF e]
    have "untouched s ?s2" "installs (trace ?s2) = installs (trace s)" by simp_all
    with Cons.IH [of ?s2] show ?thesis
      by (auto simp: Some e Let_def intro: untouched_trans)
  qed
qed

lemma setupDependencyEnvironment_frame:
  "setupDependencyEnvironment pf dep s = (r, s') \<Longrightarrow>
     untouched s s' \<and> installs (trace s') = installs (trace s) \<and> r = None"
proof -
  assume a: "setupDependencyEnvironment pf dep s = (r, s')"
  show ?thesis
  proof (cases "Path (Environment dep) = None
                \<and> length (Environment.Variables (Environment dep)) = 0")
    case True
    with a show ?thesis by (simp add: setupDependencyEnvironment_def)
  next
    case False
    let ?s1 = "add_paths pf (case Path (Environment dep) of None \<Rightarrow> [] | Some ps \<Rightarrow> ps) s"
    obtain ks s2 where rk: "range_keys pf (Environment.Variables (Environment dep)) ?s1 = (ks, s2)"
      by (cases "range_keys pf (Environment.Variables (Environment dep)) ?s1")
    from a False rk have s': "s' = add_variables pf (Environment.Variables (Environment dep)) ks s2"
      and r: "r = None"
      by (auto simp: setupDependencyEnvironment_def Let_def)
    from add_paths_frame [of s pf] range_keys_frame [OF rk]
      add_variables_frame [of s2 pf "Environment.Variables (Environment dep)" ks]
    show ?thesis unfolding s' r
      by (auto intro: untouched_trans)
  qed
qed

lemma check_update_frame:
  "check_update lib dep st s = (st', s') \<Longrightarrow>
     environ s' = environ s \<and> trace s' = trace s \<and> envManager s' = envManager s
     \<and> DependencyStatus.Name st' = DependencyStatus.Name st
     \<and> Installed st' = Installed st \<and> CurrentVersion st' = CurrentVersion st"
  by (auto simp: check_update_def split: if_splits prod.splits option.splits)

lemma check_compatible_frame:
  "check_compatible lib dep st s = (st', s') \<Longrightarrow>
     environ s' = environ s \<and> trace s' = trace s \<and> envManager s' = envManager s
     \<and> DependencyStatus.Name st' = DependencyStatus.Name st
     \<and> Installed st' = Installed st \<and> CurrentVersion st' = CurrentVersion st"
  by (auto simp: check_compatible_def split: if_splits prod.splits option.splits)

lemma VerifyDependency_frame:
  "VerifyDependency lib pf m dep s = ((st, e), s') \<Longrightarrow>
     environ s' = environ s \<and> envManager s' = envManager s
     \<and> trace s' = trace s @ verify_events m dep
     \<and> DependencyStatus.Name st = Dependency.Name dep
     \<and> (e \<noteq> None \<longrightarrow> Error st = e \<and> \<not> Installed st)"
  by (auto simp: VerifyDependency_def GetPlatformConfig_def verify_events_def Let_def
      split: option.splits if_splits prod.splits
      dest!: check_update_frame check_compatible_frame)


lemma verify_events_quiet [simp]:
  "setenvs (verify_events m dep) = []" "installs (verify_events m dep) = []"
  by (simp_all add: verify_events_def split: option.splits)

lemma CheckDependency_frame:
  "CheckDependency lib pf m dep s = ((st, e), s') \<Longrightarrow>
     untouched s s' \<and> installs (trace s') = installs (trace s)
     \<and> envManager s' = envManager s
     \<and> trace s' = trace s @ verify_events m dep
     \<and> DependencyStatus.Name st = Dependency.Name dep
     \<and> (e \<noteq> None \<longrightarrow> Error st = e \<and> \<not> Installed st)"
  unfolding CheckDependency_def
  by (drule VerifyDependency_frame) (simp add: untouched_def)

lemma map_fst_update_present:
  "map_of al k = Some v \<Longrightarrow> map fst (AList.update k w al) = map fst al"
  by (induction al) (auto split: if_splits)

lemma find_name: "find (\<lambda>d. Dependency.Name d = name) deps = Some dep \<Longrightarrow> Dependency.Name dep = name"
  by (auto simp: find_Some_iff)

lemma ensure_loop_step:
  assumes "ensure_loop lib pf m deps (name # names) sts s = (r, sts', s')"
  obtains
    (skip) "\<not> needs_install sts name"
      and "ensure_loop lib pf m deps names sts s = (r, sts', s')"
  | (abort) "needs_install sts name" and "r \<noteq> Return None"
      and "untouched s s'" and "map fst sts' = map fst sts"
      and "installs (trace s') = installs (trace s)
           \<or> installs (trace s') = installs (trace s) @ [name]"
  | (continue) upd s3 where "needs_install sts name"
      and "untouched s s3" and "installs (trace s3) = installs (trace s) @ [name]"
      and "map fst (AList.update name upd sts) = map fst sts"
      and "ensure_loop lib pf m deps names (AList.update name upd sts) s3 = (r, sts', s')"
proof (cases "map_of sts name")
  case None
  with assms skip show ?thesis by (simp add: needs_install_def)
next
  case (Some status)
  note st = Some
  show ?thesis
  proof (cases "up_to_date status")
    case True
    with assms st skip show ?thesis by (simp add: needs_install_def)
  next
    case False
    with st have need: "needs_install sts name" by (simp add: needs_install_def)
    show ?thesis
    proof (cases "find (\<lambda>d. Dependency.Name d = name) deps")
      case None
      with assms st False have "r \<noteq> Return None" "s' = s" "sts' = sts" by auto
      with need abort show ?thesis by simp
    next
      case (Some dep)
      note fd = Some
      have nm: "Dependency.Name dep = name" by (rule find_name [OF fd])
      obtain ri s1 where i: "installDependency pf m dep s = (ri, s1)"
        by (cases "installDependency pf m dep s")
      note fi = installDependency_frame [OF i, unfolded nm]
      show ?thesis
      proof (cases ri)
        case Panic
        with assms st False fd i have "r = Panic" "s' = s1" "sts' = sts" by auto
        with need fi abort show ?thesis by simp
      next
        case (Return eo)
        show ?thesis
        proof (cases eo)
          case (Some err)
          with assms st False fd i Return
          have "r = Return (Some err)" "s' = s1"
            "sts' = AList.update name (status\<lparr>Error := Some err, Installed := False\<rparr>) sts"
            by auto
          with need fi abort st show ?thesis by (simp add: map_fst_update_present)
        next
          case None
          obtain envErr s2 where e: "setupDependencyEnvironment pf dep s1 = (envErr, s2)"
            by (cases "setupDependencyEnvironment pf dep s1")
          note fe = setupDependencyEnvironment_frame [OF e]
          let ?s2 = "if envErr \<noteq> None
                     then logf LevelWarn ''Failed to set up environment for dependency %s: %v'' s2
                     else s2"
          obtain upd ce s3 where c: "CheckDependency lib pf m dep ?s2 = ((upd, ce), s3)"
            by (cases "CheckDependency lib pf m dep ?s2") auto
          note fc = CheckDependency_frame [OF c]
          have u3: "untouched s s3"
            using fi fe fc by (auto intro: untouched_trans)
          have i3: "installs (trace s3) = installs (trace s) @ [name]"
            using fi fe fc Return None by auto
          show ?thesis
          proof (cases ce)
            case (Some err)
            with assms st False fd i Return None e c
            have "r = Return (Some err)" "s' = s3" "sts' = sts" by auto
            with need u3 i3 abort show ?thesis by simp
          next
            case cn: None
            from assms st False fd i Return None e c cn
            have "ensure_loop lib pf m deps names (AList.update name upd sts) s3 = (r, sts', s')"
              by auto
            with need u3 i3 st continue show ?thesis by (simp add: map_fst_update_present)
          qed
        qed
      qed
    qed
  qed
qed

lemma ensure_loop_frame:
  "ensure_loop lib pf m deps names sts s = (r, sts', s') \<Longrightarrow>
     untouched s s' \<and> map fst sts' = map fst sts"
proof (induction names arbitrary: sts s)
  case Nil
  then show ?case by simp
next
  case (Cons name names)
  from Cons.prems show ?case
  proof (cases rule: ensure_loop_step)
    case skip
    with Cons.IH show ?thesis by simp
  next
    case abort
    then show ?thesis by simp
  next
    case (continue upd s3)
    with Cons.IH [OF continue(5)] show ?thesis by (auto intro: untouched_trans)
  qed
qed

lemma needs_install_update_other:
  "n \<noteq> name \<Longrightarrow> needs_install (AList.update name v sts) n = needs_install sts n"
  by (simp add: needs_install_def update_conv')

lemma ensure_loop_installs:
  "distinct names \<Longrightarrow> ensure_loop lib pf m deps names sts s = (r, sts', s') \<Longrightarrow>
     (\<exists>k. installs (trace s') = installs (trace s) @ take k (filter (needs_install sts) names))
     \<and> (r = Return None \<longrightarrow>
          installs (trace s') = installs (trace s) @ filter (needs_install sts) names)"
proof (induction names arbitrary: sts s)
  case Nil
  then show ?case by simp
next
  case (Cons name names)
  from Cons.prems(2) show ?case
  proof (cases rule: ensure_loop_step)
    case skip
    with Cons.IH [of sts s] Cons.prems(1) show ?thesis by simp
  next
    case abort
    from abort(5) have "\<exists>k. installs (trace s') = installs (trace s)
        @ take k (filter (needs_install sts) (name # names))"
    proof
      assume "installs (trace s') = installs (trace s)"
      then have "installs (trace s') = installs (trace s)
        @ take 0 (filter (needs_install sts) (name # names))" by simp
      then show ?thesis by blast
    next
      assume "installs (trace s') = installs (trace s) @ [name]"
      with abort(1) have "installs (trace s') = installs (trace s)
        @ take 1 (filter (needs_install sts) (name # names))" by simp
      then show ?thesis by blast
    qed
    with abort(2) show ?thesis by simp
  next
    case (continue upd s3)
    from Cons.prems(1) have d: "distinct names" and nin: "name \<notin> set names" by simp_all
    have same: "filter (needs_install (AList.update name upd sts)) names
                = filter (needs_install sts) names"
    proof (rule filter_cong [OF refl])
      fix x assume "x \<in> set names"
      with nin have "x \<noteq> name" by auto
      then show "needs_install (AList.update name upd sts) x = needs_install sts x"
        by (rule needs_install_update_other)
    qed
    from Cons.IH [OF d continue(5)] obtain k where
      k: "installs (trace s') = installs (trace s3) @ take k (filter (needs_install sts) names)"
      and full: "r = Return None \<longrightarrow>
          installs (trace s') = installs (trace s3) @ filter (needs_install sts) names"
      unfolding same by blast
    from k continue(1,3) have "installs (trace s') = installs (trace s)
        @ take (Suc k) (filter (needs_install sts) (name # names))" by simp
    then have "\<exists>k. installs (trace s') = installs (trace s)
        @ take k (filter (needs_install sts) (name # names))" by blast
    with full continue(1,3) show ?thesis by simp
  qed
qed

section \<open>Properties of verification\<close>

text \<open>
  C8. Once the verify command has succeeded (it neither timed out nor failed),
  \<^verbatim>\<open>VerifyDependency\<close> returns no error and marks the dependency installed, whatever
  the two checks on the version do. A failure of the compatibility check is the status's
  error; a failure of the classification is the status's error unless the compatibility
  check fails after it and replaces it; so when either check fails the status carries an
  error. Without a constraint the status is compatible.
\<close>

theorem VerifyDependency_records_check_failures:
  assumes "Platforms dep (Platform m) = Some pc" and "Verify (Commands pc) \<noteq> []"
    and "\<not> deadline_exceeded (exec_Command pf (trace s) (Verify (Commands pc)))"
    and "\<not> failed (exec_Command pf (trace s) (Verify (Commands pc)))"
    and "VerifyDependency lib pf m dep s = ((status, err), s')"
  shows "err = None \<and> Installed status
    \<and> (\<forall>e. Constraint (Dependency.Version dep) \<noteq> []
            \<and> snd (IsVersionCompatible lib (CurrentVersion status)
                      (Constraint (Dependency.Version dep))) = Some e
          \<longrightarrow> Error status = Some e)
    \<and> (\<forall>e. Required (Dependency.Version dep) \<noteq> []
            \<and> snd (CheckVersionUpdate lib (CurrentVersion status)
                      (Required (Dependency.Version dep))) = Some e
            \<and> (Constraint (Dependency.Version dep) = []
                \<or> snd (IsVersionCompatible lib (CurrentVersion status)
                          (Constraint (Dependency.Version dep))) = None)
          \<longrightarrow> Error status = Some e)
    \<and> ((Required (Dependency.Version dep) \<noteq> []
          \<and> snd (CheckVersionUpdate lib (CurrentVersion status)
                    (Required (Dependency.Version dep))) \<noteq> None)
         \<or> (Constraint (Dependency.Version dep) \<noteq> []
             \<and> snd (IsVersionCompatible lib (CurrentVersion status)
                       (Constraint (Dependency.Version dep))) \<noteq> None)
        \<longrightarrow> Error status \<noteq> None)
    \<and> (Constraint (Dependency.Version dep) = [] \<longrightarrow> Compatible status)"
  using assms
  by (auto simp: VerifyDependency_def GetPlatformConfig_def Let_def check_update_def
        check_compatible_def split: prod.splits option.splits if_splits)

lemma ev_garbage: "extractVersion ''garbage'' = ''garbage''"
  by (simp add: extractVersion_def pattern1_def pattern2_def pattern3_def match_core_def
      skip_v_def is_digit_def)

lemma trim_garbage: "TrimSpace ''garbage'' = ''garbage''"
  by (simp add: TrimSpace_def is_space_def)

lemma pv_garbage: "plain_version ''garbage'' = None"
  by (simp add: plain_version_def ParseUint_def is_digit_def)


lemma VerifyDependency_current:
  assumes "Platforms dep (Platform m) = Some pc" and "Verify (Commands pc) \<noteq> []"
    and "\<not> deadline_exceeded (exec_Command pf (trace s) (Verify (Commands pc)))"
    and "\<not> failed (exec_Command pf (trace s) (Verify (Commands pc)))"
    and "VerifyDependency lib pf m dep s = ((status, err), s')"
    and "out = TrimSpace (CombinedOutput (exec_Command pf (trace s) (Verify (Commands pc))))"
  shows "CurrentVersion status = (if extractVersion out \<noteq> [] then extractVersion out else out)"
  using assms
  by (auto simp: VerifyDependency_def GetPlatformConfig_def Let_def split: prod.splits
      dest!: check_update_frame check_compatible_frame)

lemmas tool_defs = tool_def tool_bundle_def manager_of_def printing_def unix_platform_def
  empty_state_def

theorem VerifyDependency_records_check_failures_witness:
  "(let r = VerifyDependency plain_lib (printing ''garbage'') (manager_of [tool ''tool'' []])
              (tool ''tool'' []) empty_state
    in snd (fst r) = None \<and> Installed (fst (fst r)) \<and> Compatible (fst (fst r))
       \<and> Error (fst (fst r)) = Some (InvalidCurrentVersion ''garbage''))
   \<and> (let r = VerifyDependency plain_lib (printing ''garbage'')
                 (manager_of [tool ''tool'' ''>=1.0.0'']) (tool ''tool'' ''>=1.0.0'') empty_state
      in snd (fst r) = None \<and> Installed (fst (fst r))
         \<and> Error (fst (fst r)) = Some (InvalidVersion ''garbage''))"
proof -
  let ?pf = "printing ''garbage''"
  have cu: "snd (CheckVersionUpdate plain_lib ''garbage'' ''1.0.0'')
              = Some (InvalidCurrentVersion ''garbage'')"
    by (simp add: CheckVersionUpdate_def plain_lib_def pv_garbage)
  have ic: "snd (IsVersionCompatible plain_lib ''garbage'' ''>=1.0.0'')
              = Some (InvalidVersion ''garbage'')"
    by (simp add: IsVersionCompatible_def plain_lib_def pv_garbage)
  have h: "Platforms (tool ''tool'' c) (Platform (manager_of [tool ''tool'' c]))
             = Some (tool_bundle ''tool'')"
          "Verify (Commands (tool_bundle ''tool'')) \<noteq> []"
          "\<not> deadline_exceeded (exec_Command ?pf (trace empty_state)
                (Verify (Commands (tool_bundle ''tool''))))"
          "\<not> failed (exec_Command ?pf (trace empty_state)
                (Verify (Commands (tool_bundle ''tool''))))" for c
    by (simp_all add: tool_defs)
  have v: "Required (Dependency.Version (tool ''tool'' c)) = ''1.0.0''"
          "Constraint (Dependency.Version (tool ''tool'' c)) = c" for c
    by (simp_all add: tool_def)
  have p: "x = ((fst (fst x), snd (fst x)), snd x)" for x :: "(DependencyStatus \<times> error option) \<times> state"
    by simp
  have o: "TrimSpace (CombinedOutput (exec_Command ?pf (trace empty_state)
             (Verify (Commands (tool_bundle ''tool''))))) = ''garbage''"
    by (simp add: tool_defs trim_garbage)
  have cur: "CurrentVersion (fst (fst (VerifyDependency plain_lib ?pf (manager_of [tool ''tool'' c])
               (tool ''tool'' c) empty_state))) = ''garbage''" for c
    using VerifyDependency_current [OF h p o [symmetric], of plain_lib c] by (simp add: ev_garbage)
  from VerifyDependency_records_check_failures [OF h p, of plain_lib "[]"]
       VerifyDependency_records_check_failures [OF h p, of plain_lib "''>=1.0.0''"]
  show ?thesis
    by (simp add: Let_def cur cu ic v)
qed

section \<open>Properties of installation\<close>

text \<open>
  C9. Let the bundle of a dependency for the active platform have an empty install
  template. Once the temporary directory is made and the download step has succeeded
  (it does so without a download when the bundle has no URL), \<^verbatim>\<open>installDependency\<close>
  indexes the empty argument vector and panics, and so does the loop of
  \<^verbatim>\<open>EnsureDependencies\<close> when it reaches this dependency and its status is not up to
  date. Validation does not look at the install template: \<open>validate_dep\<close> gives the same
  errors whatever the template is. An empty verify template, by contrast, is an error
  returned by \<^verbatim>\<open>VerifyDependency\<close>.
\<close>

theorem installDependency_empty_template_panics:
  assumes "Platforms dep (Platform m) = Some pc" and "Install (Commands pc) = []"
  shows "(\<forall>tempDir path s1. MkdirTemp pf (trace s) = Some tempDir
            \<and> download_step pf pc tempDir (enter_tempdir tempDir s) = (Inr path, s1)
          \<longrightarrow> fst (installDependency pf m dep s) = Panic)
    \<and> (\<forall>tempDir path s1 name names sts status.
            MkdirTemp pf (trace s) = Some tempDir
            \<and> download_step pf pc tempDir (enter_tempdir tempDir s) = (Inr path, s1)
            \<and> map_of sts name = Some status \<and> \<not> up_to_date status
            \<and> find (\<lambda>d. Dependency.Name d = name) deps = Some dep
          \<longrightarrow> fst (ensure_loop lib pf m deps (name # names) sts s) = Panic)
    \<and> validate_dep lib (Platform m) dep
        = validate_dep lib (Platform m)
            (dep\<lparr>Platforms := (Platforms dep)(Platform m \<mapsto>
               pc\<lparr>Commands := (Commands pc)\<lparr>Install := cmd\<rparr>\<rparr>)\<rparr>)
    \<and> (Verify (Commands pc) = [] \<longrightarrow>
          snd (fst (VerifyDependency lib pf m dep s)) = Some (NoVerifyCommand (Dependency.Name dep)))"
proof -
  have 1: "fst (installDependency pf m dep s) = Panic"
    if "MkdirTemp pf (trace s) = Some tempDir"
      and "download_step pf pc tempDir (enter_tempdir tempDir s) = (Inr path, s1)"
    for tempDir path s1
    using assms that
    by (simp add: installDependency_def GetPlatformConfig_def install_in_def Let_def)
  have 2: "fst (ensure_loop lib pf m deps (name # names) sts s) = Panic"
    if "MkdirTemp pf (trace s) = Some tempDir"
      and "download_step pf pc tempDir (enter_tempdir tempDir s) = (Inr path, s1)"
      and "map_of sts name = Some status" and "\<not> up_to_date status"
      and "find (\<lambda>d. Dependency.Name d = name) deps = Some dep"
    for tempDir path s1 name names sts status
    using 1 [OF that(1,2)] that(3-5)
    by (cases "installDependency pf m dep s") simp
  have 3: "validate_dep lib (Platform m) dep
        = validate_dep lib (Platform m)
            (dep\<lparr>Platforms := (Platforms dep)(Platform m \<mapsto>
               pc\<lparr>Commands := (Commands pc)\<lparr>Install := cmd\<rparr>\<rparr>)\<rparr>)"
    using assms by (simp add: validate_dep_def)
  have 4: "Verify (Commands pc) = [] \<Longrightarrow>
          snd (fst (VerifyDependency lib pf m dep s)) = Some (NoVerifyCommand (Dependency.Name dep))"
    using assms by (simp add: VerifyDependency_def GetPlatformConfig_def)
  from 1 2 3 4 show ?thesis by blast
qed


lemma manager_of_simps [simp]:
  "Config (manager_of deps) = Some (config_of deps)" "Platform (manager_of deps) = ''linux''"
  "DependencyConfig.Dependencies (config_of deps) = deps"
  by (simp_all add: manager_of_def config_of_def)

lemma tool_simps [simp]:
  "Dependency.Name (tool n c) = n"
  "Required (Dependency.Version (tool n c)) = ''1.0.0''"
  "Constraint (Dependency.Version (tool n c)) = c"
  "Platforms (tool n c) ''linux'' = Some (tool_bundle n)"
  "Environment (tool n c) = \<lparr>Path = None, Variables = []\<rparr>"
  "Install (Commands (tool_bundle n)) = [''install'', n]"
  "Verify (Commands (tool_bundle n)) = [n, ''--version'']"
  "Installer.URL (Installer (tool_bundle n)) = []"
  by (simp_all add: tool_def tool_bundle_def)

lemma bare_simps [simp]:
  "Dependency.Name (bare n) = n"
  "Required (Dependency.Version (bare n)) = ''1.0.0''"
  "Constraint (Dependency.Version (bare n)) = []"
  "Platforms (bare n) ''linux'' = Some (without_install (tool_bundle n))"
  "Install (Commands (without_install pc)) = []"
  "Verify (Commands (without_install pc)) = Verify (Commands pc)"
  "Installer (without_install pc) = Installer pc"
  by (simp_all add: bare_def without_install_def tool_def)

lemma failing_simps [simp]:
  "exec_Command failing tr cmd
     = \<lparr>CombinedOutput = ''not found'', failed = True, deadline_exceeded = False\<rparr>"
  "MkdirTemp failing tr = Some ''/tmp/depman-download-1''"
  "range_order failing tr ks = ks"
  by (simp_all add: failing_def unix_platform_def)

lemma trim_not_found: "TrimSpace ''not found'' = ''not found''"
  by (simp add: TrimSpace_def is_space_def)

lemma bare_verify:
  "VerifyDependency lib failing (manager_of ds) (bare ''tool'') s
     = ((\<lparr>DependencyStatus.Name = ''tool'', Installed = False, CurrentVersion = [],
          RequiredUpdate = NoUpdate, Compatible = False, Error = Some (VerifyFailed ''not found'')\<rparr>,
         Some (VerifyFailed ''not found'')),
        emit (VerifyEv ''tool'' [''tool'', ''--version''])
          (logf LevelInfo ''Verifying dependency: %s'' s))"
  by (simp add: VerifyDependency_def GetPlatformConfig_def Let_def trim_not_found)

theorem installDependency_empty_template_panics_witness:
  "validateDependencies plain_lib (manager_of [bare ''tool'']) = Return []
   \<and> fst (installDependency failing (manager_of [bare ''tool'']) (bare ''tool'') empty_state) = Panic
   \<and> fst (EnsureDependencies plain_lib failing (manager_of [bare ''tool'']) empty_state) = Panic"
proof -
  let ?m = "manager_of [bare ''tool'']"
  let ?pc = "without_install (tool_bundle ''tool'')"
  have h: "Platforms (bare ''tool'') (Platform ?m) = Some ?pc" "Install (Commands ?pc) = []"
    by simp_all
  have d: "download_step failing ?pc d s = (Inr [], s)" for d s
    by (simp add: download_step_def)
  have v: "validateDependencies plain_lib ?m = Return []"
    by (simp add: validateDependencies_def validate_dep_def)
  note rule1 = installDependency_empty_template_panics
    [OF h, where pf = failing and lib = plain_lib and deps = "[bare ''tool'']"]
  from rule1 [where s = empty_state] d
  have i: "fst (installDependency failing ?m (bare ''tool'') empty_state) = Panic"
    by simp
  have l: "fst (ensure_loop plain_lib failing ?m [bare ''tool''] (''tool'' # names)
             [(''tool'', st)] s) = Panic" if "\<not> up_to_date st" for names st s
    using rule1 [where s = s] d that by (simp del: ensure_loop.simps)
  let ?st = "\<lparr>DependencyStatus.Name = ''tool'', Installed = False, CurrentVersion = [],
               RequiredUpdate = NoUpdate, Compatible = False,
               Error = Some (VerifyFailed ''not found'')\<rparr>"
  let ?s2 = "emit (RangeEv [''tool'']) (emit (VerifyEv ''tool'' [''tool'', ''--version''])
               (logf LevelInfo ''Verifying dependency: %s'' empty_state))"
  obtain sts' s3 where lp: "ensure_loop plain_lib failing ?m [bare ''tool''] [''tool'']
             [(''tool'', ?st)] ?s2 = (Panic, sts', s3)"
    using l [of ?st "[]" ?s2]
    by (cases "ensure_loop plain_lib failing ?m [bare ''tool''] [''tool''] [(''tool'', ?st)] ?s2")
       (simp add: up_to_date_def del: ensure_loop.simps)
  have e: "fst (EnsureDependencies plain_lib failing ?m empty_state) = Panic"
    by (simp add: EnsureDependencies_def validateConfiguration_def v CheckAllDependencies_def
        CheckDependency_def bare_verify range_keys_def Let_def lp del: ensure_loop.simps)
  from v i e show ?thesis by simp
qed

section \<open>Properties of checking all dependencies\<close>

lemma validate_dep_empty_iff:
  "validate_dep lib p d = [] \<longleftrightarrow>
     \<not> (Platforms d p = None \<or> Required (Dependency.Version d) = []
        \<or> (Constraint (Dependency.Version d) \<noteq> []
            \<and> NewConstraint lib (Constraint (Dependency.Version d)) = None))"
  by (auto simp: validate_dep_def)

lemma validateDependencies_invalid_iff:
  "Config m = Some cfg \<Longrightarrow>
     \<exists>errs. validateDependencies lib m = Return errs
       \<and> (errs \<noteq> [] \<longleftrightarrow> invalid_manifest lib (Platform m) (DependencyConfig.Dependencies cfg))"
  by (auto simp: validateDependencies_def invalid_manifest_def validate_dep_empty_iff)

lemma update_fresh: "k \<notin> fst ` set al \<Longrightarrow> AList.update k v al = al @ [(k, v)]"
  by (induction al) auto

lemma check_each_keys:
  "fst ` set (fst (check_each lib pf m deps acc s)) = fst ` set acc \<union> Dependency.Name ` set deps"
  by (induction deps arbitrary: acc s) (auto simp: dom_update split: prod.splits)

lemma check_each_trace:
  "trace (snd (check_each lib pf m deps acc s)) = trace s @ concat (map (verify_events m) deps)"
proof (induction deps arbitrary: acc s)
  case Nil
  show ?case by simp
next
  case (Cons d ds)
  obtain st e s1 where c: "CheckDependency lib pf m d s = ((st, e), s1)"
    by (cases "CheckDependency lib pf m d s") auto
  from CheckDependency_frame [OF c] Cons.IH [of "AList.update (Dependency.Name d) st acc" s1]
  show ?case by (simp add: c)
qed

lemma check_each_results:
  "distinct (map Dependency.Name deps) \<Longrightarrow> Dependency.Name ` set deps \<inter> fst ` set acc = {} \<Longrightarrow>
     fst (check_each lib pf m deps acc s)
       = acc @ map2 (status_at lib pf m) deps (check_states lib pf m deps s)"
proof (induction deps arbitrary: acc s)
  case Nil
  show ?case by simp
next
  case (Cons d ds)
  obtain st e s1 where c: "CheckDependency lib pf m d s = ((st, e), s1)"
    by (cases "CheckDependency lib pf m d s") auto
  from Cons.prems have fresh: "Dependency.Name d \<notin> fst ` set acc" by auto
  have u: "AList.update (Dependency.Name d) st acc = acc @ [(Dependency.Name d, st)]"
    by (rule update_fresh [OF fresh])
  from Cons.prems have "distinct (map Dependency.Name ds)"
    and "Dependency.Name ` set ds \<inter> fst ` set (acc @ [(Dependency.Name d, st)]) = {}"
    by auto
  from Cons.IH [OF this, of s1] show ?case
    by (simp add: c u status_at_def)
qed


lemma ev_100: "extractVersion ''1.0.0'' = ''1.0.0''"
  by (simp add: extractVersion_def pattern1_def match_core_def skip_v_def is_digit_def)

lemma trim_100: "TrimSpace ''1.0.0'' = ''1.0.0''"
  by (simp add: TrimSpace_def is_space_def)

lemma cvu_100: "CheckVersionUpdate plain_lib ''1.0.0'' ''1.0.0'' = (NoUpdate, None)"
  by (simp add: CheckVersionUpdate_def plain_lib_def Equal_def Compare_def compareSegment_def
        plain_version_def ParseUint_def digits_value_def is_digit_def)

lemma fresh_machine_simps [simp]:
  "exec_Command (fresh_machine br ro) tr cmd =
     (if fresh_ok br tr cmd
      then \<lparr>CombinedOutput = ''1.0.0'', failed = False, deadline_exceeded = False\<rparr>
      else \<lparr>CombinedOutput = ''not found'', failed = True, deadline_exceeded = False\<rparr>)"
  "MkdirTemp (fresh_machine br ro) tr = Some ''/tmp/depman-download-1''"
  "range_order (fresh_machine br ro) tr ks = ro ks"
  "Setenv_ok (fresh_machine br ro) tr k v = True"
  "RemoveAll (fresh_machine br ro) = remove_under"
  "PathListSeparator (fresh_machine br ro) = '':''"
  by (simp_all add: fresh_machine_def unix_platform_def)

lemma with_env_simps [simp]:
  "Dependency.Name (with_env d vars) = Dependency.Name d"
  "Dependency.Version (with_env d vars) = Dependency.Version d"
  "Platforms (with_env d vars) = Platforms d"
  "Environment (with_env d vars) = \<lparr>Path = None, Variables = vars\<rparr>"
  by (simp_all add: with_env_def)

lemma fresh_ok_simps [simp]:
  "fresh_ok br tr [n, ''--version''] = (n \<in> set (installs tr))"
  "n \<noteq> ''--version'' \<Longrightarrow> fresh_ok br tr [''install'', n] = (n \<notin> set br)"
  by (auto simp: fresh_ok_def)

lemma empty_state_simps [simp]:
  "trace empty_state = []" "environ empty_state = []" "logs empty_state = []"
  "envManager empty_state = \<lparr>env_Manager.Variables = [], Paths = []\<rparr>" "files empty_state = Map.empty"
  by (simp_all add: empty_state_def)

lemmas eval_defs = EnsureDependencies_def validateConfiguration_def validateDependencies_def
  validate_dep_def CheckAllDependencies_def CheckDependency_def VerifyDependency_def
  GetPlatformConfig_def check_update_def check_compatible_def installDependency_def
  install_in_def download_step_def enter_tempdir_def setupDependencyEnvironment_def
  range_keys_def ExpandVariables_def AddVariable_def Environ_def up_to_date_def
  apply_environment_def ApplyToCurrentProcess_def Setenv_def
  trim_100 ev_100 cvu_100 trim_not_found Let_def

text \<open>
  C5. Let the manager have a manifest. If validation fails (no dependency declared, or an
  entry without a bundle for the active platform, without a required version, or with a
  constraint that does not parse), \<^verbatim>\<open>CheckAllDependencies\<close> returns an error and the
  \<^verbatim>\<open>nil\<close> map, and runs nothing. Otherwise it returns no error and a map whose keys are
  the declared names; it has run the verify command of every entry that has one, in
  manifest order; and when the names are distinct, the map holds for every entry the
  status that \<^verbatim>\<open>CheckDependency\<close> computed for it, whatever happened to the entries
  before it. A check that fails leaves its error in the status it returns.
\<close>

theorem CheckAllDependencies_validates_then_checks_all:
  assumes "Config m = Some cfg" and "deps = DependencyConfig.Dependencies cfg"
  shows "(invalid_manifest lib (Platform m) deps \<longrightarrow>
            (\<exists>errs. errs \<noteq> [] \<and>
               CheckAllDependencies lib pf m s
                 = (Return (None, Some (DependencyConfigErrors errs)), s)))
    \<and> (\<not> invalid_manifest lib (Platform m) deps \<longrightarrow>
            (\<exists>results s'.
               CheckAllDependencies lib pf m s = (Return (Some results, None), s')
               \<and> fst ` set results = Dependency.Name ` set deps
               \<and> trace s' = trace s @ concat (map (verify_events m) deps)
               \<and> (distinct (map Dependency.Name deps) \<longrightarrow>
                    results = map2 (status_at lib pf m) deps (check_states lib pf m deps s))))
    \<and> (\<forall>d si st e s1. CheckDependency lib pf m d si = ((st, Some e), s1) \<longrightarrow>
            Error st = Some e \<and> \<not> Installed st)"
proof -
  from validateDependencies_invalid_iff [OF assms(1), of lib] obtain errs
    where v: "validateDependencies lib m = Return errs"
      and iff: "errs \<noteq> [] \<longleftrightarrow> invalid_manifest lib (Platform m) deps"
    unfolding assms(2) by blast
  have 1: "\<exists>errs. errs \<noteq> [] \<and>
             CheckAllDependencies lib pf m s = (Return (None, Some (DependencyConfigErrors errs)), s)"
    if "invalid_manifest lib (Platform m) deps"
    using that v iff by (auto simp: CheckAllDependencies_def)
  have 2: "\<exists>results s'. CheckAllDependencies lib pf m s = (Return (Some results, None), s')
               \<and> fst ` set results = Dependency.Name ` set deps
               \<and> trace s' = trace s @ concat (map (verify_events m) deps)
               \<and> (distinct (map Dependency.Name deps) \<longrightarrow>
                    results = map2 (status_at lib pf m) deps (check_states lib pf m deps s))"
    if "\<not> invalid_manifest lib (Platform m) deps"
  proof -
    from that iff have e: "errs = []" by simp
    obtain results s' where c: "check_each lib pf m deps [] s = (results, s')"
      by (cases "check_each lib pf m deps [] s")
    have "CheckAllDependencies lib pf m s = (Return (Some results, None), s')"
      using v e c assms by (simp add: CheckAllDependencies_def)
    moreover have "fst ` set results = Dependency.Name ` set deps"
      using check_each_keys [of lib pf m deps "[]" s] c by simp
    moreover have "trace s' = trace s @ concat (map (verify_events m) deps)"
      using check_each_trace [of lib pf m deps "[]" s] c by simp
    moreover have "results = map2 (status_at lib pf m) deps (check_states lib pf m deps s)"
      if "distinct (map Dependency.Name deps)"
      using check_each_results [OF that, of "[]" lib pf m s] c by simp
    ultimately show ?thesis by blast
  qed
  have 3: "Error st = Some e \<and> \<not> Installed st"
    if "CheckDependency lib pf m d si = ((st, Some e), s1)" for d si st e s1
    using CheckDependency_frame [OF that] by simp
  from 1 2 3 show ?thesis by blast
qed

theorem CheckAllDependencies_validates_then_checks_all_witness:
  "CheckAllDependencies plain_lib (fresh_machine [] (\<lambda>ks. ks)) (manager_of []) empty_state
     = (Return (None, Some (DependencyConfigErrors [NoDependenciesDefined])), empty_state)
   \<and> fst (CheckAllDependencies plain_lib (fresh_machine [] (\<lambda>ks. ks))
            (manager_of [tool ''a'' [], tool ''b'' []])
            (empty_state\<lparr>trace := [InstallEv ''b'' [''install'', ''b'']]\<rparr>))
     = Return (Some [(''a'', missing ''a''), (''b'', present ''b'')], None)"
proof -
  let ?pf = "fresh_machine [] (\<lambda>ks. ks)"
  let ?s = "empty_state\<lparr>trace := [InstallEv ''b'' [''install'', ''b'']]\<rparr>"
  let ?deps = "[tool ''a'' [], tool ''b'' []]"
  have i: "invalid_manifest plain_lib (Platform (manager_of [])) []"
    by (simp add: invalid_manifest_def)
  from CheckAllDependencies_validates_then_checks_all
    [of "manager_of []" "config_of []" "[]" plain_lib ?pf empty_state] i
  obtain errs where c: "CheckAllDependencies plain_lib ?pf (manager_of []) empty_state
      = (Return (None, Some (DependencyConfigErrors errs)), empty_state)"
    by auto
  have "validateDependencies plain_lib (manager_of []) = Return [NoDependenciesDefined]"
    by (simp add: validateDependencies_def)
  with c have "errs = [NoDependenciesDefined]"
    by (simp add: CheckAllDependencies_def)
  with c have 1: "CheckAllDependencies plain_lib ?pf (manager_of []) empty_state
     = (Return (None, Some (DependencyConfigErrors [NoDependenciesDefined])), empty_state)"
    by simp
  have v: "\<not> invalid_manifest plain_lib (Platform (manager_of ?deps)) ?deps"
    by (simp add: invalid_manifest_def)
  have d: "distinct (map Dependency.Name ?deps)" by simp
  from CheckAllDependencies_validates_then_checks_all
    [of "manager_of ?deps" "config_of ?deps" ?deps plain_lib ?pf ?s] v d
  have "fst (CheckAllDependencies plain_lib ?pf (manager_of ?deps) ?s)
      = Return (Some (map2 (status_at plain_lib ?pf (manager_of ?deps)) ?deps
                  (check_states plain_lib ?pf (manager_of ?deps) ?deps ?s)), None)"
    by auto
  also have "map2 (status_at plain_lib ?pf (manager_of ?deps)) ?deps
                  (check_states plain_lib ?pf (manager_of ?deps) ?deps ?s)
      = [(''a'', missing ''a''), (''b'', present ''b'')]"
    by (simp add: status_at_def eval_defs missing_def present_def)
  finally show ?thesis using 1 by simp
qed

section \<open>Properties of ensuring all dependencies\<close>

lemma Setenv_installs:
  "Setenv pf k v s = (ok, s') \<Longrightarrow> installs (trace s') = installs (trace s)"
  by (auto simp: Setenv_def split: if_splits)

lemma set_variables_installs:
  "set_variables pf vars ks s = (e, s') \<Longrightarrow> installs (trace s') = installs (trace s)"
proof (induction ks arbitrary: s)
  case Nil
  then show ?case by simp
next
  case (Cons k ks)
  show ?case
  proof (cases "map_of vars k")
    case None
    with Cons show ?thesis by simp
  next
    case (Some v)
    obtain ok s1 where st: "Setenv pf k v s = (ok, s1)" by (cases "Setenv pf k v s")
    with Cons.prems Some Cons.IH [of s1] Setenv_installs [OF st]
    show ?thesis by (cases ok) auto
  qed
qed

lemma ApplyToCurrentProcess_installs:
  "ApplyToCurrentProcess pf s = (e, s') \<Longrightarrow> installs (trace s') = installs (trace s)"
  by (auto simp: ApplyToCurrentProcess_def Let_def
      split: prod.splits option.splits if_splits bool.splits
      dest!: range_keys_frame set_variables_installs Setenv_installs)

lemma apply_environment_installs:
  "installs (trace (apply_environment pf s)) = installs (trace s)"
  by (cases "ApplyToCurrentProcess pf s")
     (auto simp: apply_environment_def split: option.splits dest!: ApplyToCurrentProcess_installs)

lemma check_each_frame:
  "check_each lib pf m deps acc s = (res, s') \<Longrightarrow>
     untouched s s' \<and> installs (trace s') = installs (trace s)"
proof (induction deps arbitrary: acc s)
  case Nil
  then show ?case by simp
next
  case (Cons d ds)
  obtain st e s1 where c: "CheckDependency lib pf m d s = ((st, e), s1)"
    by (cases "CheckDependency lib pf m d s") auto
  from Cons.prems c
  have "check_each lib pf m ds (AList.update (Dependency.Name d) st acc) s1 = (res, s')"
    by simp
  from Cons.IH [OF this] CheckDependency_frame [OF c]
  show ?case by (auto intro: untouched_trans)
qed

lemma CheckAllDependencies_frame:
  "CheckAllDependencies lib pf m s = (r, s') \<Longrightarrow>
     untouched s s' \<and> installs (trace s') = installs (trace s)
     \<and> (\<forall>sts e. r = Return (Some sts, e) \<longrightarrow> e = None)"
  by (auto simp: CheckAllDependencies_def
      split: outcome.splits option.splits if_splits prod.splits dest!: check_each_frame)

text \<open>
  The run of \<^verbatim>\<open>EnsureDependencies\<close> up to the end of its loop: validation and the check
  of all dependencies have passed, the \<^verbatim>\<open>range\<close> has fixed the order \<open>names\<close>, and
  the loop has returned with \<open>r\<close>.
\<close>

lemma EnsureDependencies_cases:
  assumes "EnsureDependencies lib pf m s = (Return (osts, e), s')"
  obtains
    (early) "osts = None"
      and "(e \<noteq> None \<and> untouched s s')
           \<or> (e = None \<and> (\<exists>s1. untouched s s1 \<and> s' = apply_environment pf s1))"
      and "validateConfiguration lib m \<noteq> Return None
           \<or> (\<exists>r s1. CheckAllDependencies lib pf m s = (Return (None, r), s1))"
  | (loop) cfg sts0 s1 sts' s3 where "Config m = Some cfg"
      and "CheckAllDependencies lib pf m s = (Return (Some sts0, None), s1)"
      and "ensure_loop lib pf m (DependencyConfig.Dependencies cfg)
             (range_order pf (trace s1) (map fst sts0)) sts0
             (emit (RangeEv (range_order pf (trace s1) (map fst sts0))) s1)
           = (Return e, sts', s3)"
      and "osts = Some sts'"
      and "e \<noteq> None \<longrightarrow> s' = s3" and "e = None \<longrightarrow> s' = apply_environment pf s3"
proof (cases "validateConfiguration lib m")
  case Panic
  with assms show ?thesis by (simp add: EnsureDependencies_def)
next
  case (Return ve)
  show ?thesis
  proof (cases ve)
    case (Some err)
    with assms Return early show ?thesis by (auto simp: EnsureDependencies_def)
  next
    case None
    obtain rc s1 where c: "CheckAllDependencies lib pf m s = (rc, s1)"
      by (cases "CheckAllDependencies lib pf m s")
    note fc = CheckAllDependencies_frame [OF c]
    show ?thesis
    proof (cases rc)
      case Panic
      with assms Return None c show ?thesis by (simp add: EnsureDependencies_def)
    next
      case rr: (Return pr)
      obtain st0 ce where pr: "pr = (st0, ce)" by (cases pr)
      show ?thesis
      proof (cases ce)
        case (Some err)
        with fc rr pr have "st0 = None" by (cases st0) auto
        with assms Return None c rr pr Some fc early show ?thesis
          by (auto simp: EnsureDependencies_def)
      next
        case cn: None
        show ?thesis
        proof (cases st0)
          case None
          with assms Return \<open>ve = None\<close> c rr pr cn fc early show ?thesis
            by (auto simp: EnsureDependencies_def)
        next
          case (Some sts0)
          show ?thesis
          proof (cases "Config m")
            case None
            with assms Return \<open>ve = None\<close> c rr pr cn Some show ?thesis
              by (simp add: EnsureDependencies_def)
          next
            case (Some cfg)
            let ?names = "range_order pf (trace s1) (map fst sts0)"
            obtain rl sts' s3 where l: "ensure_loop lib pf m (DependencyConfig.Dependencies cfg)
                ?names sts0 (emit (RangeEv ?names) s1) = (rl, sts', s3)"
              by (cases "ensure_loop lib pf m (DependencyConfig.Dependencies cfg)
                ?names sts0 (emit (RangeEv ?names) s1)")
            from assms Return \<open>ve = None\<close> c rr pr cn \<open>st0 = Some sts0\<close> Some l
            have "rl = Return e \<and> osts = Some sts' \<and> (e \<noteq> None \<longrightarrow> s' = s3)
                  \<and> (e = None \<longrightarrow> s' = apply_environment pf s3)"
              by (auto simp: EnsureDependencies_def range_keys_def Let_def
                  split: outcome.splits option.splits)
            with loop [OF Some _ _] c rr pr cn \<open>st0 = Some sts0\<close> l show ?thesis
              by blast
          qed
        qed
      qed
    qed
  qed
qed


text \<open>
  C1, amended. When the install of a dependency fails, the loop of
  \<^verbatim>\<open>EnsureDependencies\<close> stops there with the error and the status map built so
  far, in which the entry of that dependency carries the error and is marked not
  installed; and what the loop stops with is what the call returns. Whenever the call
  returns an error, the environment of the process has not been written: the accumulated
  environment is not applied. When the loop runs to its end the call returns no error,
  and the last thing it does is to apply the accumulated environment; a failure to apply
  is logged as a warning and is not returned.
\<close>

theorem EnsureDependencies_error_skips_apply:
  "(\<forall>deps name names sts status dep e s1.
       map_of sts name = Some status \<and> \<not> up_to_date status
       \<and> find (\<lambda>d. Dependency.Name d = name) deps = Some dep
       \<and> installDependency pf m dep s = (Return (Some e), s1)
     \<longrightarrow> ensure_loop lib pf m deps (name # names) sts s
           = (Return (Some e),
              AList.update name (status\<lparr>Error := Some e, Installed := False\<rparr>) sts, s1))
   \<and> (\<forall>cfg sts0 s1 eo sts' s3.
         validateConfiguration lib m = Return None \<and> Config m = Some cfg
         \<and> CheckAllDependencies lib pf m s = (Return (Some sts0, None), s1)
         \<and> ensure_loop lib pf m (DependencyConfig.Dependencies cfg)
              (range_order pf (trace s1) (map fst sts0)) sts0
              (emit (RangeEv (range_order pf (trace s1) (map fst sts0))) s1)
            = (Return eo, sts', s3)
       \<longrightarrow> EnsureDependencies lib pf m s
             = (Return (Some sts', eo), if eo = None then apply_environment pf s3 else s3))
   \<and> (\<forall>osts e s'. EnsureDependencies lib pf m s = (Return (osts, Some e), s')
         \<longrightarrow> untouched s s')
   \<and> (\<forall>osts s'. EnsureDependencies lib pf m s = (Return (osts, None), s')
         \<longrightarrow> (\<exists>s1. untouched s s1 \<and> s' = apply_environment pf s1))
   \<and> (\<forall>e s2. ApplyToCurrentProcess pf s = (Some e, s2)
         \<longrightarrow> apply_environment pf s
             = logf LevelWarn ''Failed to apply environment changes: %v'' s2)
   \<and> (\<forall>s2. ApplyToCurrentProcess pf s = (None, s2) \<longrightarrow> apply_environment pf s = s2)"
proof -
  have 1: "ensure_loop lib pf m deps (name # names) sts s
           = (Return (Some e),
              AList.update name (status\<lparr>Error := Some e, Installed := False\<rparr>) sts, s1)"
    if "map_of sts name = Some status" and "\<not> up_to_date status"
      and "find (\<lambda>d. Dependency.Name d = name) deps = Some dep"
      and "installDependency pf m dep s = (Return (Some e), s1)"
    for deps name names sts status dep e s1
    using that by simp
  have 2: "EnsureDependencies lib pf m s
             = (Return (Some sts', eo), if eo = None then apply_environment pf s3 else s3)"
    if "validateConfiguration lib m = Return None" and "Config m = Some cfg"
      and "CheckAllDependencies lib pf m s = (Return (Some sts0, None), s1)"
      and "ensure_loop lib pf m (DependencyConfig.Dependencies cfg)
              (range_order pf (trace s1) (map fst sts0)) sts0
              (emit (RangeEv (range_order pf (trace s1) (map fst sts0))) s1)
            = (Return eo, sts', s3)"
    for cfg sts0 s1 eo sts' s3
    using that by (cases eo) (simp_all add: EnsureDependencies_def range_keys_def Let_def)
  have 3: "untouched s s'"
    if a: "EnsureDependencies lib pf m s = (Return (osts, Some e), s')" for osts e s'
    using a
  proof (cases rule: EnsureDependencies_cases)
    case early
    then show ?thesis by auto
  next
    case (loop cfg sts0 s1 sts' s3)
    from CheckAllDependencies_frame [OF loop(2)] have "untouched s s1" by simp
    moreover from ensure_loop_frame [OF loop(3)] have "untouched s1 s3"
      by (simp add: untouched_def)
    ultimately show ?thesis using loop(5) by (auto intro: untouched_trans)
  qed
  have 4: "\<exists>s1. untouched s s1 \<and> s' = apply_environment pf s1"
    if a: "EnsureDependencies lib pf m s = (Return (osts, None), s')" for osts s'
    using a
  proof (cases rule: EnsureDependencies_cases)
    case early
    then show ?thesis by auto
  next
    case (loop cfg sts0 s1 sts' s3)
    from CheckAllDependencies_frame [OF loop(2)] have "untouched s s1" by simp
    moreover from ensure_loop_frame [OF loop(3)] have "untouched s1 s3"
      by (simp add: untouched_def)
    ultimately show ?thesis using loop(6) by (auto intro: untouched_trans)
  qed
  have 5: "apply_environment pf s = logf LevelWarn ''Failed to apply environment changes: %v'' s2"
    if "ApplyToCurrentProcess pf s = (Some e, s2)" for e s2
    using that by (simp add: apply_environment_def)
  have 6: "apply_environment pf s = s2" if "ApplyToCurrentProcess pf s = (None, s2)" for s2
    using that by (simp add: apply_environment_def)
  from 1 2 3 4 5 6 show ?thesis by blast
qed


lemma read_only_simps [simp]:
  "exec_Command read_only = exec_Command (fresh_machine [] id)"
  "MkdirTemp read_only = MkdirTemp (fresh_machine [] id)"
  "range_order read_only = range_order (fresh_machine [] id)"
  "Setenv_ok read_only tr k v = False"
  "RemoveAll read_only = remove_under"
  by (simp_all add: read_only_def fresh_machine_def unix_platform_def)

lemma aborted_run_eval:
  "aborted_run
     = (Return (Some [(''a'', present ''a''),
                      (''b'', (missing ''b'')\<lparr>Error := Some (InstallationFailed ''not found'')\<rparr>)],
                Some (InstallationFailed ''not found'')), snd aborted_run)
   \<and> env_Manager.Variables (envManager (snd aborted_run)) = [(''FOO'', ''bar'')]
   \<and> environ (snd aborted_run) = []
   \<and> setenvs (trace (snd aborted_run)) = []
   \<and> installs (trace (snd aborted_run)) = [''a'', ''b'']"
  by (simp add: aborted_run_def two_tools_def a_then_b_def eval_defs present_def missing_def)

lemma completed_run_eval:
  "completed_run
     = (Return (Some [(''a'', present ''a''), (''b'', present ''b'')], None), snd completed_run)
   \<and> environ (snd completed_run) = [(''FOO'', ''bar'')]
   \<and> setenvs (trace (snd completed_run)) = [SetenvEv ''FOO'' ''bar'']
   \<and> installs (trace (snd completed_run)) = [''a'', ''b'']"
  by (simp add: completed_run_def two_tools_def a_then_b_def eval_defs present_def missing_def)

lemma unapplied_run_eval:
  "unapplied_run
     = (Return (Some [(''a'', present ''a''), (''b'', present ''b'')], None), snd unapplied_run)
   \<and> environ (snd unapplied_run) = []
   \<and> last (logs (snd unapplied_run)) = (LevelWarn, ''Failed to apply environment changes: %v'')"
  by (simp add: unapplied_run_def two_tools_def a_then_b_def eval_defs present_def missing_def)

lemma reversed_run_eval:
  "reversed_run
     = (Return (Some [(''a'', present ''a''), (''b'', present ''b'')], None), snd reversed_run)
   \<and> installs (trace (snd reversed_run)) = [''b'', ''a'']"
  by (simp add: reversed_run_def two_tools_def a_then_b_def eval_defs present_def missing_def)


text \<open>
  C1. The claim: the accumulated environment is applied to the process after the loop,
  whether the loop completed or was aborted. In the run where the install of \<^verbatim>\<open>b\<close>
  fails after \<^verbatim>\<open>a\<close> was installed, the call returns the error with the status map, the
  accumulator holds \<^verbatim>\<open>FOO=bar\<close>, and the process has no \<^verbatim>\<open>FOO\<close>: its environment
  was never written.
\<close>

theorem EnsureDependencies_abort_counterexample:
  "fst aborted_run
     = Return (Some [(''a'', present ''a''),
                     (''b'', (missing ''b'')\<lparr>Error := Some (InstallationFailed ''not found'')\<rparr>)],
               Some (InstallationFailed ''not found''))
   \<and> env_Manager.Variables (envManager (snd aborted_run)) = [(''FOO'', ''bar'')]
   \<and> Getenv (snd aborted_run) ''FOO'' = []
   \<and> setenvs (trace (snd aborted_run)) = []"
proof -
  from aborted_run_eval have "fst aborted_run
     = Return (Some [(''a'', present ''a''),
                     (''b'', (missing ''b'')\<lparr>Error := Some (InstallationFailed ''not found'')\<rparr>)],
               Some (InstallationFailed ''not found''))"
    by (metis fst_conv)
  with aborted_run_eval show ?thesis by (simp add: Getenv_def)
qed

theorem EnsureDependencies_error_skips_apply_witness:
  "untouched empty_state (snd aborted_run)
   \<and> (\<exists>s1. untouched empty_state s1
            \<and> snd completed_run = apply_environment (fresh_machine [] id) s1)
   \<and> environ (snd completed_run) = [(''FOO'', ''bar'')]
   \<and> fst unapplied_run = Return (Some [(''a'', present ''a''), (''b'', present ''b'')], None)
   \<and> (\<exists>s1. untouched empty_state s1 \<and> snd unapplied_run = apply_environment read_only s1)
   \<and> last (logs (snd unapplied_run)) = (LevelWarn, ''Failed to apply environment changes: %v'')"
proof -
  from EnsureDependencies_error_skips_apply
    [of "fresh_machine [''b''] id" two_tools empty_state plain_lib] aborted_run_eval
  have 1: "untouched empty_state (snd aborted_run)"
    unfolding aborted_run_def by blast
  from EnsureDependencies_error_skips_apply
    [of "fresh_machine [] id" two_tools empty_state plain_lib] completed_run_eval
  have 2: "\<exists>s1. untouched empty_state s1
            \<and> snd completed_run = apply_environment (fresh_machine [] id) s1"
    unfolding completed_run_def by blast
  from EnsureDependencies_error_skips_apply
    [of read_only two_tools empty_state plain_lib] unapplied_run_eval
  have 3: "\<exists>s1. untouched empty_state s1 \<and> snd unapplied_run = apply_environment read_only s1"
    unfolding unapplied_run_def by blast
  from unapplied_run_eval
  have 4: "fst unapplied_run = Return (Some [(''a'', present ''a''), (''b'', present ''b'')], None)"
    by (metis fst_conv)
  from 1 2 3 4 completed_run_eval unapplied_run_eval show ?thesis by simp
qed

text \<open>
  Every operation only adds events to the trace, and an install command that fails ends
  the loop of \<^verbatim>\<open>EnsureDependencies\<close>.
\<close>

lemma clean_append: "clean pf tr (a @ b) = (clean pf tr a \<and> clean pf (tr @ a) b)"
  by (induction a arbitrary: tr) auto

lemma clean_no_installs: "installs evs = [] \<Longrightarrow> clean pf tr evs"
proof (induction evs arbitrary: tr)
  case Nil
  show ?case by simp
next
  case (Cons e es)
  then show ?case by (cases e) auto
qed

lemma halts_clean: "clean pf tr evs \<Longrightarrow> halts_at_failure pf tr evs"
  by (simp add: halts_at_failure_def)

lemma halts_append:
  "clean pf tr a \<Longrightarrow> halts_at_failure pf (tr @ a) b \<Longrightarrow> halts_at_failure pf tr (a @ b)"
  by (cases "b = []") (auto simp: halts_at_failure_def clean_append butlast_append)

lemma halts_failed_last:
  "clean pf tr a \<Longrightarrow> failed (exec_Command pf (tr @ a) cmd) \<Longrightarrow>
     halts_at_failure pf tr (a @ [InstallEv n cmd])"
  by (simp add: halts_at_failure_def)

lemma quiet_extension:
  assumes "prefix (trace s) (trace s')" and "installs (trace s') = installs (trace s)"
  obtains evs where "trace s' = trace s @ evs" and "installs evs = []"
    and "\<And>pf tr. clean pf tr evs"
proof -
  from assms(1) obtain evs where e: "trace s' = trace s @ evs" by (auto simp: prefix_def)
  with assms(2) have "installs evs = []" by simp
  with e that clean_no_installs show ?thesis by blast
qed

lemma Download_prefix: "Download pf opts s = (r, s') \<Longrightarrow> prefix (trace s) (trace s')"
  by (auto simp: Download_def Let_def split: option.splits if_splits)

lemma download_step_prefix:
  "download_step pf pc d s = (r, s') \<Longrightarrow> prefix (trace s) (trace s')"
  by (auto simp: download_step_def Let_def split: prod.splits sum.splits if_splits
      dest!: Download_prefix)

lemma install_in_halts:
  assumes "install_in pf dep pc d s = (r, s')"
  shows "\<exists>evs. trace s' = trace s @ evs \<and> halts_at_failure pf (trace s) evs
           \<and> (r = Return None \<longrightarrow> clean pf (trace s) evs)"
proof -
  obtain dr s1 where d: "download_step pf pc d s = (dr, s1)"
    by (cases "download_step pf pc d s")
  from download_step_prefix [OF d] download_step_frame [OF d]
  obtain pre where pre: "trace s1 = trace s @ pre" and cl: "clean pf (trace s) pre"
    by (auto elim: quiet_extension)
  show ?thesis
  proof (cases dr)
    case (Inl err)
    with assms d have "s' = s1" "r \<noteq> Return None" by (auto simp: install_in_def)
    with pre cl show ?thesis by (auto intro: halts_clean)
  next
    case (Inr path)
    let ?cmd = "map (\<lambda>arg. ReplaceAll arg ''{download_path}'' path) (Install (Commands pc))"
    show ?thesis
    proof (cases "?cmd = []")
      case True
      with assms d Inr have "trace s' = trace s1" "r = Panic"
        by (auto simp: install_in_def Let_def)
      with pre cl show ?thesis by (auto intro: halts_clean)
    next
      case False
      with assms d Inr
      have t: "trace s' = trace s @ pre @ [InstallEv (Dependency.Name dep) ?cmd]"
        and r: "r = Return None \<longleftrightarrow> \<not> failed (exec_Command pf (trace s @ pre) ?cmd)"
        by (auto simp: install_in_def Let_def pre split: if_splits)
      show ?thesis
      proof (cases "failed (exec_Command pf (trace s @ pre) ?cmd)")
        case True
        with t r halts_failed_last [OF cl True] show ?thesis by auto
      next
        case False
        with cl have "clean pf (trace s) (pre @ [InstallEv (Dependency.Name dep) ?cmd])"
          by (simp add: clean_append)
        with t show ?thesis by (auto intro: halts_clean)
      qed
    qed
  qed
qed

lemma installDependency_halts:
  assumes "installDependency pf m dep s = (r, s')"
  shows "\<exists>evs. trace s' = trace s @ evs \<and> halts_at_failure pf (trace s) evs
           \<and> (r = Return None \<longrightarrow> clean pf (trace s) evs)"
proof (cases "GetPlatformConfig m dep")
  case (Inl err)
  with assms have "s' = s" "r \<noteq> Return None" by (auto simp: installDependency_def)
  then show ?thesis by (auto simp: halts_at_failure_def)
next
  case (Inr pc)
  show ?thesis
  proof (cases "MkdirTemp pf (trace s)")
    case None
    with assms Inr have "trace s' = trace s @ [MkdirTempEv]" "r \<noteq> Return None"
      by (auto simp: installDependency_def)
    then show ?thesis by (auto simp: halts_at_failure_def)
  next
    case (Some tempDir)
    obtain ri s2 where i: "install_in pf dep pc tempDir (enter_tempdir tempDir s) = (ri, s2)"
      by (cases "install_in pf dep pc tempDir (enter_tempdir tempDir s)")
    from install_in_halts [OF i] obtain evs where
      e: "trace s2 = trace s @ [MkdirTempEv] @ evs"
      and h: "halts_at_failure pf (trace s @ [MkdirTempEv]) evs"
      and c: "ri = Return None \<longrightarrow> clean pf (trace s @ [MkdirTempEv]) evs"
      by (auto simp: enter_tempdir_def)
    from assms Inr Some i have "trace s' = trace s2" "r = ri"
      by (auto simp: installDependency_def)
    moreover have "clean pf (trace s) [MkdirTempEv]" by simp
    ultimately show ?thesis using e h c halts_append [of pf "trace s" "[MkdirTempEv]" evs]
      by (auto simp: clean_append)
  qed
qed


lemma range_keys_prefix: "range_keys pf al s = (ks, s') \<Longrightarrow> prefix (trace s) (trace s')"
  by (auto simp: range_keys_def Let_def)

lemma ExpandVariables_prefix: "ExpandVariables pf t s = (r, s') \<Longrightarrow> prefix (trace s) (trace s')"
  by (auto simp: ExpandVariables_def Let_def split: prod.splits dest!: range_keys_prefix)

lemma add_paths_prefix: "prefix (trace s) (trace (add_paths pf ps s))"
proof (induction ps arbitrary: s)
  case Nil
  show ?case by simp
next
  case (Cons p ps)
  obtain r s1 where e: "ExpandVariables pf p s = (r, s1)" by (cases "ExpandVariables pf p s")
  let ?s2 = "logf LevelDebug ''Added %s to PATH for dependency %s'' (AddPath pf r s1)"
  from ExpandVariables_prefix [OF e] have "prefix (trace s) (trace ?s2)" by simp
  with Cons.IH [of ?s2] show ?case
    by (auto simp: e Let_def intro: prefix_order.trans)
qed

lemma add_variables_prefix: "prefix (trace s) (trace (add_variables pf vars ks s))"
proof (induction ks arbitrary: s)
  case Nil
  show ?case by simp
next
  case (Cons k ks)
  show ?case
  proof (cases "map_of vars k")
    case None
    with Cons.IH [of s] show ?thesis by simp
  next
    case (Some v)
    obtain r s1 where e: "ExpandVariables pf v s = (r, s1)" by (cases "ExpandVariables pf v s")
    let ?s2 = "logf LevelDebug ''Set environment variable %s=%s for dependency %s''
                 (AddVariable k r s1)"
    from ExpandVariables_prefix [OF e] have "prefix (trace s) (trace ?s2)" by simp
    with Cons.IH [of ?s2] show ?thesis
      by (auto simp: Some e Let_def intro: prefix_order.trans)
  qed
qed

lemma setupDependencyEnvironment_prefix:
  assumes a: "setupDependencyEnvironment pf dep s = (r, s')"
  shows "prefix (trace s) (trace s')"
proof (cases "Path (Environment dep) = None
              \<and> length (Environment.Variables (Environment dep)) = 0")
  case True
  with a show ?thesis by (simp add: setupDependencyEnvironment_def)
next
  case False
  let ?s1 = "add_paths pf (case Path (Environment dep) of None \<Rightarrow> [] | Some ps \<Rightarrow> ps) s"
  obtain ks s2 where rk: "range_keys pf (Environment.Variables (Environment dep)) ?s1 = (ks, s2)"
    by (cases "range_keys pf (Environment.Variables (Environment dep)) ?s1")
  from a False rk have s': "s' = add_variables pf (Environment.Variables (Environment dep)) ks s2"
    by (auto simp: setupDependencyEnvironment_def Let_def)
  from add_paths_prefix [of s pf] range_keys_prefix [OF rk]
    add_variables_prefix [of s2 pf "Environment.Variables (Environment dep)" ks]
  show ?thesis unfolding s' by (blast intro: prefix_order.trans)
qed

lemma Setenv_prefix: "Setenv pf k v s = (ok, s') \<Longrightarrow> prefix (trace s) (trace s')"
  by (auto simp: Setenv_def split: if_splits)

lemma set_variables_prefix:
  "set_variables pf vars ks s = (e, s') \<Longrightarrow> prefix (trace s) (trace s')"
proof (induction ks arbitrary: s)
  case Nil
  then show ?case by simp
next
  case (Cons k ks)
  show ?case
  proof (cases "map_of vars k")
    case None
    with Cons show ?thesis by simp
  next
    case (Some v)
    obtain ok s1 where st: "Setenv pf k v s = (ok, s1)" by (cases "Setenv pf k v s")
    with Cons.prems Some Cons.IH [of s1] Setenv_prefix [OF st]
    show ?thesis by (cases ok) (auto intro: prefix_order.trans)
  qed
qed

lemma ApplyToCurrentProcess_prefix:
  "ApplyToCurrentProcess pf s = (e, s') \<Longrightarrow> prefix (trace s) (trace s')"
  by (auto simp: ApplyToCurrentProcess_def Let_def
      split: prod.splits option.splits if_splits bool.splits
      dest!: range_keys_prefix set_variables_prefix Setenv_prefix
      intro: prefix_order.trans)

lemma apply_environment_prefix: "prefix (trace s) (trace (apply_environment pf s))"
  by (cases "ApplyToCurrentProcess pf s")
     (auto simp: apply_environment_def split: option.splits dest!: ApplyToCurrentProcess_prefix)

lemma ensure_loop_halts:
  "ensure_loop lib pf m deps names sts s = (r, sts', s') \<Longrightarrow>
     \<exists>evs. trace s' = trace s @ evs \<and> halts_at_failure pf (trace s) evs
           \<and> (r = Return None \<longrightarrow> clean pf (trace s) evs)"
proof (induction names arbitrary: sts s)
  case Nil
  then show ?case by (simp add: halts_at_failure_def)
next
  case (Cons name names)
  note a = Cons.prems
  show ?case
  proof (cases "map_of sts name")
    case None
    with a have "ensure_loop lib pf m deps names sts s = (r, sts', s')" by simp
    then show ?thesis by (rule Cons.IH)
  next
    case (Some status)
    note st = Some
    show ?thesis
    proof (cases "up_to_date status")
      case True
      with a st have "ensure_loop lib pf m deps names sts s = (r, sts', s')" by simp
      then show ?thesis by (rule Cons.IH)
    next
      case False
      show ?thesis
      proof (cases "find (\<lambda>d. Dependency.Name d = name) deps")
        case None
        with a st False have "r \<noteq> Return None" "s' = s" by auto
        then show ?thesis by (simp add: halts_at_failure_def)
      next
        case (Some dep)
        note fd = Some
        obtain ri s1 where i: "installDependency pf m dep s = (ri, s1)"
          by (cases "installDependency pf m dep s")
        from installDependency_halts [OF i] obtain ei where
          ei: "trace s1 = trace s @ ei" and hi: "halts_at_failure pf (trace s) ei"
          and ci: "ri = Return None \<longrightarrow> clean pf (trace s) ei" by blast
        show ?thesis
        proof (cases "ri = Return None")
          case False
          with a st \<open>\<not> up_to_date status\<close> fd i have "r \<noteq> Return None" "s' = s1"
            by (auto split: outcome.splits option.splits)
          with ei hi show ?thesis by auto
        next
          case True
          obtain envErr s2 where e: "setupDependencyEnvironment pf dep s1 = (envErr, s2)"
            by (cases "setupDependencyEnvironment pf dep s1")
          let ?s2 = "if envErr \<noteq> None
                     then logf LevelWarn ''Failed to set up environment for dependency %s: %v'' s2
                     else s2"
          obtain upd ce s3 where c: "CheckDependency lib pf m dep ?s2 = ((upd, ce), s3)"
            by (cases "CheckDependency lib pf m dep ?s2") auto
          from setupDependencyEnvironment_prefix [OF e] setupDependencyEnvironment_frame [OF e]
          obtain ee where ee: "trace s2 = trace s1 @ ee" and ce: "\<And>tr. clean pf tr ee"
            by (auto elim: quiet_extension)
          from CheckDependency_frame [OF c]
          have t3: "trace s3 = trace s @ ei @ ee @ verify_events m dep"
            by (simp add: ei ee)
          have c3: "clean pf (trace s) (ei @ ee @ verify_events m dep)"
            using ci True ce by (simp add: clean_append clean_no_installs)
          show ?thesis
          proof (cases ce)
            case (Some err)
            with a st \<open>\<not> up_to_date status\<close> fd i True e c
            have "r = Return (Some err)" "s' = s3" by auto
            with t3 c3 show ?thesis by (auto intro: halts_clean)
          next
            case cn: None
            from a st \<open>\<not> up_to_date status\<close> fd i True e c cn
            have "ensure_loop lib pf m deps names (AList.update name upd sts) s3 = (r, sts', s')"
              by auto
            from Cons.IH [OF this] obtain evs where
              t: "trace s' = trace s3 @ evs" and h: "halts_at_failure pf (trace s3) evs"
              and cl: "r = Return None \<longrightarrow> clean pf (trace s3) evs" by blast
            from t t3 have "trace s' = trace s @ (ei @ ee @ verify_events m dep) @ evs" by simp
            moreover from halts_append [OF c3] h t3
            have "halts_at_failure pf (trace s) ((ei @ ee @ verify_events m dep) @ evs)" by simp
            moreover from c3 cl t3
            have "r = Return None \<longrightarrow> clean pf (trace s) ((ei @ ee @ verify_events m dep) @ evs)"
              by (simp add: clean_append)
            ultimately show ?thesis by blast
          qed
        qed
      qed
    qed
  qed
qed

lemma halted_run_eval:
  "halted_run
     = (Return (Some [(''a'', (missing ''a'')\<lparr>Error := Some (InstallationFailed ''not found'')\<rparr>),
                      (''b'', missing ''b'')],
                Some (InstallationFailed ''not found'')), snd halted_run)
   \<and> trace (snd halted_run)
       = [VerifyEv ''a'' [''a'', ''--version''], VerifyEv ''b'' [''b'', ''--version''],
          RangeEv [''a'', ''b''], MkdirTempEv, InstallEv ''a'' [''install'', ''a'']]"
  by (simp add: halted_run_def two_tools_def a_then_b_def eval_defs present_def missing_def)

text \<open>
  C3. The claim: \<^verbatim>\<open>EnsureDependencies\<close> installs in manifest order. It installs in the
  order in which its \<^verbatim>\<open>range\<close> visits the status map, which the language leaves open:
  for the manifest that declares \<^verbatim>\<open>a\<close> and then \<^verbatim>\<open>b\<close>, when the range visits
  \<^verbatim>\<open>b\<close> first the install commands are started for \<^verbatim>\<open>b\<close> and then for \<^verbatim>\<open>a\<close>.
\<close>

theorem install_order_counterexample:
  "map Dependency.Name a_then_b = [''a'', ''b'']
   \<and> reversed_run = EnsureDependencies plain_lib (fresh_machine [] rev) (manager_of a_then_b)
                       empty_state
   \<and> fst reversed_run = Return (Some [(''a'', present ''a''), (''b'', present ''b'')], None)
   \<and> installs (trace (snd reversed_run)) = [''b'', ''a'']"
proof -
  from reversed_run_eval
  have "fst reversed_run = Return (Some [(''a'', present ''a''), (''b'', present ''b'')], None)"
    by (metis fst_conv)
  with reversed_run_eval show ?thesis
    by (simp add: a_then_b_def reversed_run_def two_tools_def)
qed

text \<open>
  C3, amended. Dependencies are processed one at a time. \<^verbatim>\<open>CheckAllDependencies\<close> runs
  the verify commands of the declared dependencies in manifest order.
  \<^verbatim>\<open>EnsureDependencies\<close> then starts install commands only for dependencies whose status
  after that check is not up to date, each at most once, in the order in which its
  \<^verbatim>\<open>range\<close> visits the keys of the status map (an order the language leaves open, and
  which need not be the manifest order): the install commands it starts are those of an
  initial segment of that order, and of all of it when the call returns no error. An
  install command that fails is the last command the call starts: after it no verify or
  install command is run, nothing is downloaded and the environment of the process is
  not written. When the call returns no error, no install command has failed.
\<close>

theorem dependencies_processed_in_range_order:
  assumes "Config m = Some cfg" and "deps = DependencyConfig.Dependencies cfg"
    and "\<not> invalid_manifest lib (Platform m) deps"
  shows "\<exists>sts0 s1.
           CheckAllDependencies lib pf m s = (Return (Some sts0, None), s1)
           \<and> trace s1 = trace s @ concat (map (verify_events m) deps)
           \<and> (\<forall>osts e s'.
                 EnsureDependencies lib pf m s = (Return (osts, e), s')
                 \<and> distinct (range_order pf (trace s1) (map fst sts0))
               \<longrightarrow> (\<exists>k. installs (trace s') = installs (trace s)
                          @ take k (filter (needs_install sts0)
                                      (range_order pf (trace s1) (map fst sts0))))
                   \<and> (e = None \<longrightarrow> installs (trace s') = installs (trace s)
                          @ filter (needs_install sts0)
                              (range_order pf (trace s1) (map fst sts0))))
           \<and> (\<forall>osts e s'.
                 EnsureDependencies lib pf m s = (Return (osts, e), s')
               \<longrightarrow> (\<exists>evs. trace s' = trace s @ evs \<and> halts_at_failure pf (trace s) evs
                          \<and> (e = None \<longrightarrow> clean pf (trace s) evs)))"
proof -
  from validateDependencies_invalid_iff [OF assms(1), of lib] assms(2,3)
  have v: "validateDependencies lib m = Return []" by auto
  then have vc: "validateConfiguration lib m = Return None"
    using assms(1) by (simp add: validateConfiguration_def)
  obtain sts0 s1 where ce: "check_each lib pf m deps [] s = (sts0, s1)"
    by (cases "check_each lib pf m deps [] s")
  have c: "CheckAllDependencies lib pf m s = (Return (Some sts0, None), s1)"
    using v ce assms(1,2) by (simp add: CheckAllDependencies_def)
  have t: "trace s1 = trace s @ concat (map (verify_events m) deps)"
    using check_each_trace [of lib pf m deps "[]" s] ce by simp
  from CheckAllDependencies_frame [OF c] have i1: "installs (trace s1) = installs (trace s)"
    by simp
  let ?names = "range_order pf (trace s1) (map fst sts0)"
  have order: "(\<exists>k. installs (trace s') = installs (trace s)
                 @ take k (filter (needs_install sts0) ?names))
        \<and> (e = None \<longrightarrow> installs (trace s') = installs (trace s)
                 @ filter (needs_install sts0) ?names)"
    if a: "EnsureDependencies lib pf m s = (Return (osts, e), s')" and d: "distinct ?names"
    for osts e s'
    using a
  proof (cases rule: EnsureDependencies_cases)
    case early
    with vc c show ?thesis by simp
  next
    case (loop cfg' sts0' s1' sts' s3)
    from loop(2) c have eq: "sts0' = sts0" "s1' = s1" by simp_all
    from ensure_loop_installs [OF d loop(3) [unfolded eq]] i1
    have l: "(\<exists>k. installs (trace s3) = installs (trace s)
                 @ take k (filter (needs_install sts0) ?names))
        \<and> (e = None \<longrightarrow> installs (trace s3) = installs (trace s)
                 @ filter (needs_install sts0) ?names)"
      by simp
    have "installs (trace s') = installs (trace s3)"
      using loop(5,6) by (cases e) (simp_all add: apply_environment_installs)
    with l show ?thesis by simp
  qed
  have halt: "\<exists>evs. trace s' = trace s @ evs \<and> halts_at_failure pf (trace s) evs
                \<and> (e = None \<longrightarrow> clean pf (trace s) evs)"
    if a: "EnsureDependencies lib pf m s = (Return (osts, e), s')" for osts e s'
    using a
  proof (cases rule: EnsureDependencies_cases)
    case early
    with vc c show ?thesis by simp
  next
    case (loop cfg' sts0' s1' sts' s3)
    from loop(2) c have eq: "sts0' = sts0" "s1' = s1" by simp_all
    let ?pre = "concat (map (verify_events m) deps) @ [RangeEv ?names]"
    from t i1 have "installs ?pre = []" by simp
    then have cp: "clean pf (trace s) ?pre" by (rule clean_no_installs)
    from ensure_loop_halts [OF loop(3) [unfolded eq]] t obtain evs where
      t3: "trace s3 = trace s @ ?pre @ evs"
      and h3: "halts_at_failure pf (trace s @ ?pre) evs"
      and c3: "e = None \<longrightarrow> clean pf (trace s @ ?pre) evs" by auto
    show ?thesis
    proof (cases e)
      case (Some err)
      with loop(5) have "s' = s3" by simp
      with t3 halts_append [OF cp h3] Some show ?thesis by auto
    next
      case None
      with loop(6) have s': "s' = apply_environment pf s3" by simp
      from apply_environment_prefix [of s3 pf] apply_environment_installs [of pf s3]
      obtain ea where ea: "trace s' = trace s3 @ ea" and ca: "\<And>tr. clean pf tr ea"
        unfolding s' by (auto elim: quiet_extension)
      from cp c3 None ca have "clean pf (trace s) ((?pre @ evs) @ ea)"
        by (simp add: clean_append)
      moreover from ea t3 have "trace s' = trace s @ (?pre @ evs) @ ea" by simp
      ultimately show ?thesis by (blast intro: halts_clean)
    qed
  qed
  from c t order halt show ?thesis by blast
qed

theorem dependencies_processed_in_range_order_witness:
  "fst (CheckAllDependencies plain_lib (fresh_machine [] id) two_tools empty_state)
     = Return (Some [(''a'', missing ''a''), (''b'', missing ''b'')], None)
   \<and> trace (snd (CheckAllDependencies plain_lib (fresh_machine [] id) two_tools empty_state))
     = [VerifyEv ''a'' [''a'', ''--version''], VerifyEv ''b'' [''b'', ''--version'']]
   \<and> installs (trace (snd completed_run))
     = filter (needs_install [(''a'', missing ''a''), (''b'', missing ''b'')]) [''a'', ''b'']
   \<and> installs (trace (snd completed_run)) = [''a'', ''b'']
   \<and> halts_at_failure (fresh_machine [''a''] id) [] (trace (snd halted_run))
   \<and> install_fails (fresh_machine [''a''] id) (butlast (trace (snd halted_run)))
        (last (trace (snd halted_run)))
   \<and> installs (trace (snd halted_run)) = [''a'']"
proof -
  let ?pf = "fresh_machine [] id"
  let ?pa = "fresh_machine [''a''] id"
  have h: "Config two_tools = Some (config_of a_then_b)"
    "a_then_b = DependencyConfig.Dependencies (config_of a_then_b)"
    "\<not> invalid_manifest plain_lib (Platform two_tools) a_then_b"
    by (simp_all add: two_tools_def invalid_manifest_def a_then_b_def)
  have c0: "fst (CheckAllDependencies plain_lib ?pf two_tools empty_state)
     = Return (Some [(''a'', missing ''a''), (''b'', missing ''b'')], None)"
    by (simp add: two_tools_def a_then_b_def eval_defs missing_def)
  have v: "concat (map (verify_events two_tools) a_then_b)
     = [VerifyEv ''a'' [''a'', ''--version''], VerifyEv ''b'' [''b'', ''--version'']]"
    by (simp add: two_tools_def a_then_b_def verify_events_def)
  from dependencies_processed_in_range_order [OF h, of ?pf empty_state]
  obtain sts0 s1 where
    c: "CheckAllDependencies plain_lib ?pf two_tools empty_state = (Return (Some sts0, None), s1)"
    and t: "trace s1 = trace empty_state @ concat (map (verify_events two_tools) a_then_b)"
    and r: "\<And>osts e s'.
        EnsureDependencies plain_lib ?pf two_tools empty_state = (Return (osts, e), s')
        \<Longrightarrow> distinct (range_order ?pf (trace s1) (map fst sts0))
        \<Longrightarrow> e = None
        \<Longrightarrow> installs (trace s') = installs (trace empty_state)
               @ filter (needs_install sts0) (range_order ?pf (trace s1) (map fst sts0))"
    by blast
  from c c0 have s0: "sts0 = [(''a'', missing ''a''), (''b'', missing ''b'')]" by simp
  from completed_run_eval
  have e: "EnsureDependencies plain_lib ?pf two_tools empty_state
     = (Return (Some [(''a'', present ''a''), (''b'', present ''b'')], None), snd completed_run)"
    by (simp add: completed_run_def)
  have 1: "installs (trace (snd completed_run))
     = filter (needs_install [(''a'', missing ''a''), (''b'', missing ''b'')]) [''a'', ''b'']"
    using r [OF e] by (simp add: s0)
  from halted_run_eval
  have eh: "EnsureDependencies plain_lib ?pa two_tools empty_state
     = (Return (Some [(''a'', (missing ''a'')\<lparr>Error := Some (InstallationFailed ''not found'')\<rparr>),
                      (''b'', missing ''b'')],
                Some (InstallationFailed ''not found'')), snd halted_run)"
    by (simp add: halted_run_def)
  from dependencies_processed_in_range_order [OF h, of ?pa empty_state] eh
  have 2: "halts_at_failure ?pa [] (trace (snd halted_run))"
    by auto
  have 3: "install_fails ?pa (butlast (trace (snd halted_run))) (last (trace (snd halted_run)))"
    "installs (trace (snd halted_run)) = [''a'']"
    using halted_run_eval by (simp_all add: installs_def)
  from c0 c t v 1 2 3 completed_run_eval show ?thesis by simp
qed

end
